theory Spec2Isabelle
  imports Main "HOL-Library.Word"
begin

unbundle bit_operations_syntax

section \<open>Data model (FATfs.h, HAL.h)\<close>

type_synonym u8 = "8 word"
type_synonym u16 = "16 word"
type_synonym u32 = "32 word"
type_synonym u64 = "64 word"

text \<open>The error codes handed to the error callback (enum \<open>ERROR_CODE\<close>).\<close>

datatype ERROR_CODE =
  ERROR_OPENING_FILE
  | BOOT_SECTOR_READ_ERROR
  | DYNAMIC_ALLOCATON_ERROR
  | ERROR_UPDATING_SECTOR_SIZE
  | MULTIPLE_SECTOR_READ_ERROR
  | CLUSTER_SIZE_ERROR
  | ERROR_READING_ROOT_DIRECTORY
  | ERROR_READING_SUB_DIRECTORY

text \<open>
  Places where the C program leaves defined behaviour: bytes written or read through a null
  pointer, an integer division by zero, an array index outside its buffer. The model stops
  there with \<open>Inl\<close> of the fault; a normal return is \<open>Inr\<close>.
\<close>

datatype fault = NullPointer | DivisionByZero | OutOfBounds

record fatfs_bootsector_struct_t =
  bytes_per_sector :: u16
  sectors_per_cluster :: u16
  Number_of_FATs :: u8
  Maximum_number_of_root_directory_entries :: u16
  Total_sector_count :: u16
  Sectors_per_FAT :: u16

text \<open>
  \<open>File_name\<close> is the array \<open>char[9]\<close> and \<open>Extension\<close> the array \<open>char[5]\<close>, as byte lists.
\<close>

record fatfs_directory_entry_list_struct_t =
  File_name :: "u8 list"
  Extension :: "u8 list"
  Attributes :: u8
  Creation_Time :: u16
  Creation_Date :: u16
  Last_Write_Time :: u16
  Last_Write_Date :: u16
  First_Logical_Cluster :: u16
  File_Size_in_bytes :: u64

text \<open>
  The static variables of HAL.c and FATfs.c in one record. \<open>s_fptr\<close> is the open image (its
  bytes), \<open>None\<close> for a null \<open>FILE\<close> pointer; \<open>s_fat_table\<close> is the loaded table, \<open>None\<close> for
  a null pointer. \<open>io_log\<close> records every \<open>fseek\<close>/\<open>fread\<close> pair as (byte offset, bytes
  requested); \<open>reported\<close> records the codes passed to the error callback, which in main.c
  only prints them.
\<close>

record machine =
  s_fptr :: "u8 list option"
  s_sectorSize :: u16
  io_log :: "(nat \<times> nat) list"
  s_FAT12Infor :: fatfs_bootsector_struct_t
  s_fat_table :: "u8 list option"
  num_cluster_in_root_directory :: u16
  cluster_started_in_physical_of_rootdirectory :: u16
  Cluster_starts_in_physical_of_the_data_area :: u16
  reported :: "ERROR_CODE list"

text \<open>
  The C allocator is outside the program: \<open>calloc_ok n\<close> tells whether a request for \<open>n\<close>
  bytes is granted, \<open>DirList_ok\<close> and \<open>ClusterList_ok\<close> whether \<open>malloc\<close> grants a list node.
\<close>

record allocator =
  calloc_ok :: "nat \<Rightarrow> bool"
  DirList_ok :: bool
  ClusterList_ok :: bool

definition error_callback :: "ERROR_CODE \<Rightarrow> machine \<Rightarrow> machine" where
  "error_callback e m = m\<lparr>reported := reported m @ [e]\<rparr>"

section \<open>HAL.c\<close>

definition KMC_DEFAULT_SECTOR_SIZE :: nat where
  "KMC_DEFAULT_SECTOR_SIZE = 512"

text \<open>\<open>kmc_init\<close>: the argument is what \<open>fopen\<close> yields for the path.\<close>

definition kmc_init :: "u8 list option \<Rightarrow> machine \<Rightarrow> u8 \<times> machine" where
  "kmc_init file m =
     (let m' = m\<lparr>s_fptr := file, s_sectorSize := of_nat KMC_DEFAULT_SECTOR_SIZE\<rparr>
      in (if file = None then 0 else 1, m'))"

definition kmc_update_sector_size :: "u16 \<Rightarrow> machine \<Rightarrow> u8 \<times> machine" where
  "kmc_update_sector_size sector_size m =
     (if unat sector_size mod KMC_DEFAULT_SECTOR_SIZE = 0
      then (1, m\<lparr>s_sectorSize := sector_size\<rparr>)
      else (0, m))"

text \<open>
  \<open>fseek(s_fptr, index, SEEK_SET)\<close> followed by \<open>fread(buff, 1, want, s_fptr)\<close>: the bytes
  delivered are those of the image from \<open>index\<close> on, at most \<open>want\<close> of them; they overwrite the
  front of the buffer and their number is returned. The pointer \<open>buff\<close> is handed to \<open>fread\<close>
  unchecked. When nothing is delivered (no bytes are wanted, or the position is at or past the end
  of the image) \<open>fread\<close> returns 0 and leaves the buffer alone, whatever the pointer; when bytes
  are delivered, a null buffer and a buffer shorter than those bytes are faults. A null stream
  is a fault.
\<close>

definition fseek_fread ::
  "machine \<Rightarrow> nat \<Rightarrow> nat \<Rightarrow> u8 list option \<Rightarrow> fault + (machine \<times> u32 \<times> u8 list option)" where
  "fseek_fread m index want buff =
     (case s_fptr m of
        None \<Rightarrow> Inl NullPointer
      | Some img \<Rightarrow>
          (let got = take want (drop index img);
               m' = m\<lparr>io_log := io_log m @ [(index, want)]\<rparr>
           in case buff of
                None \<Rightarrow> if got = [] then Inr (m', 0, None) else Inl NullPointer
              | Some b \<Rightarrow>
                  if length b < length got then Inl OutOfBounds
                  else Inr (m', of_nat (length got), Some (got @ drop (length got) b))))"

definition kmc_read_sector ::
  "machine \<Rightarrow> u32 \<Rightarrow> u8 list option \<Rightarrow> fault + (machine \<times> u32 \<times> u8 list option)" where
  "kmc_read_sector m index buff = fseek_fread m (unat index) (unat (s_sectorSize m)) buff"

definition kmc_read_multi_sector ::
  "machine \<Rightarrow> u32 \<Rightarrow> u32 \<Rightarrow> u8 list option \<Rightarrow> fault + (machine \<times> u32 \<times> u8 list option)" where
  "kmc_read_multi_sector m index num buff =
     fseek_fread m (unat index) (unat (ucast (s_sectorSize m) * num :: u32)) buff"

section \<open>FATfs.c: the FAT table\<close>

text \<open>
  \<open>get_fat_entry_next\<close>. The C expression is evaluated in \<open>int\<close>; every intermediate value is
  below \<open>2 ^ 12\<close>, so evaluating it in 16 bits gives the same entry.
\<close>

definition get_fat_entry_next :: "machine \<Rightarrow> u16 \<Rightarrow> fault + u16" where
  "get_fat_entry_next m n =
     (case s_fat_table m of
        None \<Rightarrow> Inl NullPointer
      | Some t \<Rightarrow>
          (let k = (3 * unat n) div 2
           in if length t \<le> k + 1 then Inl OutOfBounds
              else if unat n mod 2 = 0
                then Inr (push_bit 8 (ucast (t ! (k + 1) AND 0x0F)) OR ucast (t ! k))
                else Inr (push_bit 4 (ucast (t ! (k + 1))) OR drop_bit 4 (ucast (t ! k AND 0xF0)))))"

text \<open>
  The packing the table layout prescribes, written from the specification: two 12-bit values
  \<open>a\<close> and \<open>b\<close> in three bytes.
\<close>

definition pack12 :: "u16 \<Rightarrow> u16 \<Rightarrow> u8 list" where
  "pack12 a b =
     [ucast a, ucast (drop_bit 8 a) OR push_bit 4 (ucast b), ucast (drop_bit 4 b)]"

section \<open>FATfs.c: mounting\<close>

text \<open>Two bytes copied by \<open>memcpy\<close> into a \<open>uint16_t\<close> on a little-endian host.\<close>

definition le16 :: "u8 \<Rightarrow> u8 \<Rightarrow> u16" where
  "le16 lo hi = ucast lo OR push_bit 8 (ucast hi)"

text \<open>
  \<open>parse_bootsector\<close>. The one-byte \<open>memcpy\<close> into the 16-bit field \<open>sectors_per_cluster\<close>
  replaces its low byte and keeps its high byte.
\<close>

definition parse_bootsector :: "u8 list \<Rightarrow> machine \<Rightarrow> machine" where
  "parse_bootsector buff m =
     m\<lparr>s_FAT12Infor :=
         \<lparr>bytes_per_sector = le16 (buff ! 11) (buff ! 12),
          sectors_per_cluster =
            (sectors_per_cluster (s_FAT12Infor m) AND 0xFF00) OR ucast (buff ! 13),
          Number_of_FATs = buff ! 16,
          Maximum_number_of_root_directory_entries = le16 (buff ! 17) (buff ! 18),
          Total_sector_count = le16 (buff ! 19) (buff ! 20),
          Sectors_per_FAT = le16 (buff ! 22) (buff ! 23)\<rparr>\<rparr>"

text \<open>
  \<open>get_fat_table\<close>. Products of two 16-bit fields are \<open>int\<close> products in C; they are taken
  in 32 bits here.
\<close>

definition get_fat_table :: "allocator \<Rightarrow> machine \<Rightarrow> fault + machine" where
  "get_fat_table A m =
     (let I = s_FAT12Infor m;
          size = unat (ucast (bytes_per_sector I) * ucast (Sectors_per_FAT I) :: u32)
      in if calloc_ok A size
         then (case kmc_read_multi_sector m
                      (ucast (bytes_per_sector I) * ucast (sectors_per_cluster I))
                      (ucast (Sectors_per_FAT I)) (Some (replicate size 0)) of
                 Inl f \<Rightarrow> Inl f
               | Inr (m1, number_of_bytes_read_in_FAT, buff) \<Rightarrow>
                   (let m2 = m1\<lparr>s_fat_table := buff\<rparr>
                    in if number_of_bytes_read_in_FAT
                            \<noteq> ucast (Sectors_per_FAT I) * ucast (bytes_per_sector I)
                       then Inr (error_callback MULTIPLE_SECTOR_READ_ERROR m2)
                       else Inr m2))
         else Inr (error_callback DYNAMIC_ALLOCATON_ERROR (m\<lparr>s_fat_table := None\<rparr>)))"

text \<open>
  \<open>fatfs_init\<close>: the returned pair is \<open>Cluster_size\<close> and the statics afterwards. The division
  by \<open>bytes_per_sector\<close> is a fault when that field is zero.
\<close>

definition fatfs_init :: "allocator \<Rightarrow> u8 list option \<Rightarrow> machine \<Rightarrow> fault + (u32 \<times> machine)" where
  "fatfs_init A file m =
     (case kmc_init file m of
        (opened, m1) \<Rightarrow>
          if opened \<noteq> 0 then
            if calloc_ok A KMC_DEFAULT_SECTOR_SIZE then
              (case kmc_read_sector m1 0 (Some (replicate KMC_DEFAULT_SECTOR_SIZE 0)) of
                 Inl f \<Rightarrow> Inl f
               | Inr (m2, number_of_bytes_read, buff) \<Rightarrow>
                   if of_nat KMC_DEFAULT_SECTOR_SIZE \<noteq> number_of_bytes_read
                   then Inr (0, error_callback BOOT_SECTOR_READ_ERROR m2)
                   else
                     (let m3 = parse_bootsector (the buff) m2
                      in case kmc_update_sector_size (bytes_per_sector (s_FAT12Infor m3)) m3 of
                           (updated, m4) \<Rightarrow>
                             if updated \<noteq> 0 then
                               (case get_fat_table A m4 of
                                  Inl f \<Rightarrow> Inl f
                                | Inr m5 \<Rightarrow>
                                    (let I = s_FAT12Infor m5;
                                         Cluster_size =
                                           (ucast (sectors_per_cluster I)
                                              * ucast (bytes_per_sector I) :: u32)
                                     in if bytes_per_sector I = 0 then Inl DivisionByZero
                                        else
                                          (let num :: u16 =
                                                 ucast ((ucast
                                                    (Maximum_number_of_root_directory_entries I)
                                                      * 32 :: u32)
                                                    div ucast (bytes_per_sector I))
                                           in Inr (Cluster_size,
                                                m5\<lparr>num_cluster_in_root_directory := num,
                                                   cluster_started_in_physical_of_rootdirectory :=
                                                     ucast (ucast (Number_of_FATs I)
                                                       * ucast (Sectors_per_FAT I) + 1 :: u32),
                                                   Cluster_starts_in_physical_of_the_data_area :=
                                                     ucast (ucast (Number_of_FATs I)
                                                       * ucast (Sectors_per_FAT I)
                                                       + ucast num + 1 :: u32)\<rparr>))))
                             else Inr (0, error_callback ERROR_UPDATING_SECTOR_SIZE m4)))
            else Inr (0, error_callback DYNAMIC_ALLOCATON_ERROR m1)
          else Inr (0, error_callback ERROR_OPENING_FILE m1))"

text \<open>The statics as the C runtime initialises them before \<open>main\<close>.\<close>

definition power_on :: machine where
  "power_on =
     \<lparr>s_fptr = None, s_sectorSize = 0, io_log = [],
      s_FAT12Infor =
        \<lparr>bytes_per_sector = 0, sectors_per_cluster = 0, Number_of_FATs = 0,
         Maximum_number_of_root_directory_entries = 0, Total_sector_count = 0,
         Sectors_per_FAT = 0\<rparr>,
      s_fat_table = None, num_cluster_in_root_directory = 0,
      cluster_started_in_physical_of_rootdirectory = 0,
      Cluster_starts_in_physical_of_the_data_area = 0, reported = []\<rparr>"

text \<open>An allocator that grants every request.\<close>

definition generous :: allocator where
  "generous = \<lparr>calloc_ok = (\<lambda>n. True), DirList_ok = True, ClusterList_ok = True\<rparr>"

text \<open>
  The first sector of a 1.44 MB floppy: 512 bytes per sector, 1 sector per cluster, 2 FATs,
  224 root entries, 2880 sectors, 9 sectors per FAT.
\<close>

definition floppy_boot :: "u8 list" where
  "floppy_boot =
     replicate 11 0 @ [0x00, 0x02, 0x01, 0x01, 0x00, 0x02, 0xE0, 0x00, 0x40, 0x0B, 0xF0, 0x09, 0x00]
       @ replicate 488 0"

text \<open>
  Four more boot sectors, each with 1 sector per cluster and 224 root entries: one with 512
  bytes per sector and 255 FATs of 258 sectors, and one with 512 bytes per sector and 2 FATs of
  32767 sectors, each followed by the sectors of its first FAT; one with 513 bytes per sector;
  one with 0 bytes per sector.
\<close>

definition wide_image :: "u8 list" where
  "wide_image =
     replicate 11 0 @ [0x00, 0x02, 0x01, 0x01, 0x00, 0xFF, 0xE0, 0x00, 0x40, 0x0B, 0xF0, 0x02, 0x01]
       @ replicate 488 0 @ replicate 132096 0"

definition tall_image :: "u8 list" where
  "tall_image =
     replicate 11 0 @ [0x00, 0x02, 0x01, 0x01, 0x00, 0x02, 0xE0, 0x00, 0x40, 0x0B, 0xF0, 0xFF, 0x7F]
       @ replicate 488 0 @ replicate 16776704 0"

definition odd_image :: "u8 list" where
  "odd_image =
     replicate 11 0 @ [0x01, 0x02, 0x01, 0x01, 0x00, 0x02, 0xE0, 0x00, 0x40, 0x0B, 0xF0, 0x09, 0x00]
       @ replicate 488 0"

definition zero_image :: "u8 list" where
  "zero_image =
     replicate 11 0 @ [0x00, 0x00, 0x01, 0x01, 0x00, 0x02, 0xE0, 0x00, 0x40, 0x0B, 0xF0, 0x09, 0x00]
       @ replicate 488 0"

section \<open>FATfs.c: directory entries\<close>

definition le32 :: "u8 \<Rightarrow> u8 \<Rightarrow> u8 \<Rightarrow> u8 \<Rightarrow> u32" where
  "le32 b0 b1 b2 b3 =
     ucast b0 OR push_bit 8 (ucast b1) OR push_bit 16 (ucast b2) OR push_bit 24 (ucast b3)"

text \<open>
  The copies from the 32-byte slot at offset \<open>i\<close> into the static \<open>s_dirList\<close>. The bytes of
  \<open>s_dirList\<close> that no statement writes (\<open>Extension[3]\<close>, the upper half of the 64-bit size)
  keep their initial zero.
\<close>

definition decode_entry :: "u8 list \<Rightarrow> nat \<Rightarrow> fatfs_directory_entry_list_struct_t" where
  "decode_entry buff i =
     \<lparr>File_name = take 8 (drop i buff) @ [0],
      Extension = take 3 (drop (i + 8) buff) @ [0, 0],
      Attributes = buff ! (i + 11),
      Creation_Time = le16 (buff ! (i + 14)) (buff ! (i + 15)),
      Creation_Date = le16 (buff ! (i + 16)) (buff ! (i + 17)),
      Last_Write_Time = le16 (buff ! (i + 22)) (buff ! (i + 23)),
      Last_Write_Date = le16 (buff ! (i + 24)) (buff ! (i + 25)),
      First_Logical_Cluster = le16 (buff ! (i + 26)) (buff ! (i + 27)),
      File_Size_in_bytes =
        ucast (le32 (buff ! (i + 28)) (buff ! (i + 29)) (buff ! (i + 30)) (buff ! (i + 31)))\<rparr>"

text \<open>
  The \<open>for\<close> loop over the root directory buffer (\<open>i\<close> runs in steps of 32 below
  \<open>number_of_bytes_read\<close>). Setting \<open>i = number_of_bytes_read\<close> ends the loop. When \<open>malloc\<close>
  refuses a node, \<open>createNodeEntry\<close> returns a null pointer that the next statement writes
  through. The counter is a \<open>uint32_t\<close> in C and a natural number here; the two agree because a
  slot is only looked at inside the buffer, whose length is below \<open>2 ^ 32\<close>.
\<close>

function scan_root ::
  "allocator \<Rightarrow> u8 list \<Rightarrow> nat \<Rightarrow> nat \<Rightarrow> fatfs_directory_entry_list_struct_t list
     \<Rightarrow> fault + fatfs_directory_entry_list_struct_t list" where
  "scan_root A buff number_of_bytes_read i acc =
     (if i < number_of_bytes_read then
        if length buff \<le> i then Inl OutOfBounds
        else if buff ! i \<noteq> 0 then
          if length buff \<le> i + 11 then Inl OutOfBounds
          else if buff ! (i + 11) \<noteq> 0x0F then
            if length buff < i + 32 then Inl OutOfBounds
            else if DirList_ok A
              then scan_root A buff number_of_bytes_read (i + 32) (acc @ [decode_entry buff i])
              else Inl NullPointer
          else scan_root A buff number_of_bytes_read (i + 32) acc
        else Inr acc
      else Inr acc)"
  by pat_completeness auto
termination
  by (relation "measure (\<lambda>(A, buff, n, i, acc). n - i)") auto

text \<open>
  The same loop in the subdirectory branch, with the test against
  \<open>First_Logical_Directory_of_current\<close>.
\<close>

function scan_sub ::
  "allocator \<Rightarrow> u8 list \<Rightarrow> nat \<Rightarrow> u16 \<Rightarrow> nat \<Rightarrow> fatfs_directory_entry_list_struct_t list
     \<Rightarrow> fault + fatfs_directory_entry_list_struct_t list" where
  "scan_sub A buff number_of_bytes_read First_Logical_Directory_of_current i acc =
     (if i < number_of_bytes_read then
        if length buff \<le> i then Inl OutOfBounds
        else if buff ! i \<noteq> 0 then
          if length buff \<le> i + 11 then Inl OutOfBounds
          else if buff ! (i + 11) \<noteq> 0x0F then
            if length buff < i + 32 then Inl OutOfBounds
            else if First_Logical_Directory_of_current
                      \<noteq> First_Logical_Cluster (decode_entry buff i) then
              if DirList_ok A
              then scan_sub A buff number_of_bytes_read First_Logical_Directory_of_current
                     (i + 32) (acc @ [decode_entry buff i])
              else Inl NullPointer
            else scan_sub A buff number_of_bytes_read First_Logical_Directory_of_current
                   (i + 32) acc
          else scan_sub A buff number_of_bytes_read First_Logical_Directory_of_current
                 (i + 32) acc
        else Inr acc
      else Inr acc)"
  by pat_completeness auto
termination
  by (relation "measure (\<lambda>(A, buff, n, c, i, acc). n - i)") auto

declare scan_root.simps [simp del] scan_sub.simps [simp del]

section \<open>FATfs.c: walking cluster chains\<close>

text \<open>The byte offset of data cluster \<open>c\<close>, as both walks compute it.\<close>

definition cluster_offset :: "machine \<Rightarrow> u16 \<Rightarrow> u32" where
  "cluster_offset m c =
     (ucast (Cluster_starts_in_physical_of_the_data_area m) - 2 + ucast c)
       * ucast (bytes_per_sector (s_FAT12Infor m))"

text \<open>
  One pass through the body of the \<open>do ... while\<close> loop of the subdirectory branch of
  \<open>fatfs_read_dir\<close>. The loop state is the statics, \<open>First_Logical_Directory_of_current\<close>,
  \<open>buff\<close> and the list built so far. A pass that read its cluster in full overwrites
  \<open>First_Logical_Directory_of_current\<close> with the FAT entry (line 447) and sets \<open>buff\<close> to null
  (line 449). A read into the null buffer returns only when it delivers nothing; the scan then
  runs over zero bytes and does not look at the buffer.
\<close>

type_synonym dir_walk =
  "machine \<times> u16 \<times> u8 list option \<times> fatfs_directory_entry_list_struct_t list"

definition read_dir_body :: "allocator \<Rightarrow> dir_walk \<Rightarrow> fault + dir_walk" where
  "read_dir_body A s =
     (case s of (m, First_Logical_Directory_of_current, buff, acc) \<Rightarrow>
        (let I = s_FAT12Infor m
         in case kmc_read_multi_sector m (cluster_offset m First_Logical_Directory_of_current)
                   (ucast (sectors_per_cluster I)) buff of
              Inl f \<Rightarrow> Inl f
            | Inr (m1, number_of_bytes_read, buff1) \<Rightarrow>
                if number_of_bytes_read
                     = ucast (sectors_per_cluster I) * ucast (bytes_per_sector I)
                then (case scan_sub A (the buff1) (unat number_of_bytes_read)
                             First_Logical_Directory_of_current 0 acc of
                        Inl f \<Rightarrow> Inl f
                      | Inr acc1 \<Rightarrow>
                          (case get_fat_entry_next m1 First_Logical_Directory_of_current of
                             Inl f \<Rightarrow> Inl f
                           | Inr nxt \<Rightarrow> Inr (m1, nxt, None, acc1)))
                else Inr (error_callback ERROR_READING_SUB_DIRECTORY m1,
                          First_Logical_Directory_of_current, buff1, acc)))"

text \<open>The loop: \<open>None\<close> when it never leaves.\<close>

partial_function (option) read_dir_loop ::
  "allocator \<Rightarrow> dir_walk \<Rightarrow> (fault + dir_walk) option" where
  "read_dir_loop A s =
     (case read_dir_body A s of
        Inl f \<Rightarrow> Some (Inl f)
      | Inr s' \<Rightarrow>
          if fst (snd s') < 0xFF7 then read_dir_loop A s' else Some (Inr s'))"

definition fatfs_read_dir ::
  "allocator \<Rightarrow> machine \<Rightarrow> u16
     \<Rightarrow> (fault + (fatfs_directory_entry_list_struct_t list \<times> machine)) option" where
  "fatfs_read_dir A m First_Logical_Directory_of_current =
     (let I = s_FAT12Infor m
      in if First_Logical_Directory_of_current = 0 then
           (let size = unat (ucast (bytes_per_sector I) * ucast (sectors_per_cluster I)
                               * ucast (num_cluster_in_root_directory m) :: u32)
            in if calloc_ok A size then
                 (case kmc_read_multi_sector m
                         (ucast (cluster_started_in_physical_of_rootdirectory m)
                            * ucast (bytes_per_sector I))
                         (ucast (num_cluster_in_root_directory m))
                         (Some (replicate size 0)) of
                    Inl f \<Rightarrow> Some (Inl f)
                  | Inr (m1, number_of_bytes_read, buff) \<Rightarrow>
                      if number_of_bytes_read
                           = ucast (bytes_per_sector I)
                               * ucast (num_cluster_in_root_directory m)
                      then (case scan_root A (the buff) (unat number_of_bytes_read) 0 [] of
                              Inl f \<Rightarrow> Some (Inl f)
                            | Inr head \<Rightarrow> Some (Inr (head, m1)))
                      else Some (Inr ([], error_callback ERROR_READING_ROOT_DIRECTORY m1)))
               else Some (Inr ([], error_callback DYNAMIC_ALLOCATON_ERROR m)))
         else
           (let size = unat (ucast (sectors_per_cluster I) * ucast (bytes_per_sector I) :: u32)
            in if calloc_ok A size then
                 (case read_dir_loop A
                         (m, First_Logical_Directory_of_current, Some (replicate size 0), []) of
                    None \<Rightarrow> None
                  | Some (Inl f) \<Rightarrow> Some (Inl f)
                  | Some (Inr (m1, c, buff, head)) \<Rightarrow> Some (Inr (head, m1)))
               else Some (Inr ([], error_callback DYNAMIC_ALLOCATON_ERROR m))))"

text \<open>
  One pass through the body of the \<open>do ... while\<close> loop of \<open>fatfs_read_file\<close>. The loop state is
  the statics, \<open>First_Logical_Cluster_of_current\<close> and the list of cluster buffers built so far.
\<close>

type_synonym file_walk = "machine \<times> u16 \<times> u8 list list"

definition read_file_body :: "allocator \<Rightarrow> file_walk \<Rightarrow> fault + file_walk" where
  "read_file_body A s =
     (case s of (m, First_Logical_Cluster_of_current, acc) \<Rightarrow>
        (let I = s_FAT12Infor m;
             size = unat (ucast (sectors_per_cluster I) * ucast (bytes_per_sector I) :: u32)
         in if calloc_ok A size then
              (case kmc_read_multi_sector m (cluster_offset m First_Logical_Cluster_of_current)
                      (ucast (sectors_per_cluster I)) (Some (replicate size 0)) of
                 Inl f \<Rightarrow> Inl f
               | Inr (m1, number_of_bytes_read, buff) \<Rightarrow>
                   if number_of_bytes_read
                        = ucast (bytes_per_sector I) * ucast (sectors_per_cluster I)
                   then if ClusterList_ok A
                        then (case get_fat_entry_next m1 First_Logical_Cluster_of_current of
                                Inl f \<Rightarrow> Inl f
                              | Inr nxt \<Rightarrow> Inr (m1, nxt, acc @ [the buff]))
                        else Inl NullPointer
                   else Inr (m1, First_Logical_Cluster_of_current, acc))
            else Inr (error_callback DYNAMIC_ALLOCATON_ERROR m,
                      First_Logical_Cluster_of_current, acc)))"

partial_function (option) read_file_loop ::
  "allocator \<Rightarrow> file_walk \<Rightarrow> (fault + file_walk) option" where
  "read_file_loop A s =
     (case read_file_body A s of
        Inl f \<Rightarrow> Some (Inl f)
      | Inr s' \<Rightarrow>
          if fst (snd s') < 0xFF7 then read_file_loop A s' else Some (Inr s'))"

definition fatfs_read_file ::
  "allocator \<Rightarrow> machine \<Rightarrow> u16 \<Rightarrow> (fault + (u8 list list \<times> machine)) option" where
  "fatfs_read_file A m First_Logical_Cluster_of_current =
     (case read_file_loop A (m, First_Logical_Cluster_of_current, []) of
        None \<Rightarrow> None
      | Some (Inl f) \<Rightarrow> Some (Inl f)
      | Some (Inr (m1, c, head_cluster_list)) \<Rightarrow> Some (Inr (head_cluster_list, m1)))"

section \<open>A sample table\<close>

text \<open>A table whose first three entries are reserved and whose entries 2 and 3 are packed.\<close>

definition fat_sample :: machine where
  "fat_sample = power_on\<lparr>s_fat_table := Some ([0xF0, 0xFF, 0xFF] @ pack12 0xABC 0x123)\<rparr>"

section \<open>Slots a scan decodes\<close>

text \<open>
  The offsets of the slots that a scan of \<open>buff\<close> from offset \<open>i\<close> decodes: first byte not 0,
  attribute byte not \<open>0x0F\<close>, up to the first slot whose first byte is 0.
\<close>

function decoded_slots :: "u8 list \<Rightarrow> nat \<Rightarrow> nat \<Rightarrow> nat list" where
  "decoded_slots buff n i =
     (if i < n \<and> buff ! i \<noteq> 0 then
        if buff ! (i + 11) \<noteq> 0x0F then i # decoded_slots buff n (i + 32)
        else decoded_slots buff n (i + 32)
      else [])"
  by pat_completeness auto
termination
  by (relation "measure (\<lambda>(buff, n, i). n - i)") auto

declare decoded_slots.simps [simp del]

text \<open>
  Three directory slots: an entry (a directory, first cluster 5), a slot of zeros, and another
  entry (a file, first cluster 7).
\<close>

definition dir_sample :: "u8 list" where
  "dir_sample =
     [0x41] @ replicate 10 0x20 @ [0x10] @ replicate 14 0 @ [0x05, 0x00] @ replicate 4 0
       @ replicate 32 0
       @ [0x42] @ replicate 10 0x20 @ [0x20] @ replicate 14 0 @ [0x07, 0x00] @ replicate 4 0"

section \<open>Walks that repeat a short read\<close>

text \<open>
  A state of the subdirectory loop in which the cluster number is below \<open>0xFF7\<close> and the read
  of that cluster into the present buffer, null or not, is short.
\<close>

definition dir_stuck :: "dir_walk \<Rightarrow> bool" where
  "dir_stuck s =
     (case s of (m, c, buff, acc) \<Rightarrow>
        c < 0xFF7 \<and>
        (case kmc_read_multi_sector m (cluster_offset m c)
                (ucast (sectors_per_cluster (s_FAT12Infor m))) buff of
           Inl f \<Rightarrow> False
         | Inr (m1, n, buff1) \<Rightarrow>
             n \<noteq> ucast (sectors_per_cluster (s_FAT12Infor m))
                   * ucast (bytes_per_sector (s_FAT12Infor m))))"

text \<open>
  A state of the file loop in which the cluster number is below \<open>0xFF7\<close> and either the buffer
  is refused or the read of that cluster is short.
\<close>

definition file_stuck :: "allocator \<Rightarrow> file_walk \<Rightarrow> bool" where
  "file_stuck A s =
     (case s of (m, c, acc) \<Rightarrow>
        c < 0xFF7 \<and>
        (let sz = unat (ucast (sectors_per_cluster (s_FAT12Infor m))
                          * ucast (bytes_per_sector (s_FAT12Infor m)) :: u32)
         in \<not> calloc_ok A sz \<or>
            (case kmc_read_multi_sector m (cluster_offset m c)
                    (ucast (sectors_per_cluster (s_FAT12Infor m))) (Some (replicate sz 0)) of
               Inl f \<Rightarrow> False
             | Inr (m1, n, buff1) \<Rightarrow>
                 n \<noteq> ucast (bytes_per_sector (s_FAT12Infor m))
                       * ucast (sectors_per_cluster (s_FAT12Infor m)))))"

text \<open>
  The buffer that the first pass of the subdirectory walk scans, with its byte count: cluster
  \<open>c\<close> as read from the image, when the buffer is granted and the read is full.
\<close>

definition scanned_cluster :: "allocator \<Rightarrow> machine \<Rightarrow> u16 \<Rightarrow> (u8 list \<times> nat) option" where
  "scanned_cluster A m c =
     (let I = s_FAT12Infor m;
          sz = unat (ucast (sectors_per_cluster I) * ucast (bytes_per_sector I) :: u32)
      in if calloc_ok A sz then
           (case kmc_read_multi_sector m (cluster_offset m c)
                   (ucast (sectors_per_cluster I)) (Some (replicate sz 0)) of
              Inl f \<Rightarrow> None
            | Inr (m1, n, buff) \<Rightarrow>
                if n = ucast (sectors_per_cluster I) * ucast (bytes_per_sector I)
                then Some (the buff, unat n) else None)
         else None)"

section \<open>A sample volume\<close>

text \<open>A 32-byte directory slot: 11 name bytes, the attribute byte, the first cluster.\<close>

definition dir_slot :: "u8 list \<Rightarrow> u8 \<Rightarrow> u8 \<Rightarrow> u8 list" where
  "dir_slot name attr cluster = name @ [attr] @ replicate 14 0 @ [cluster, 0] @ replicate 4 0"

text \<open>
  A FAT of 9 sectors: entries 0 and 1 reserved, 2 end of chain (the subdirectory), 3 pointing to
  4, and 4 end of chain (a file of two clusters).
\<close>

definition volume_fat :: "u8 list" where
  "volume_fat = pack12 0xFF0 0xFFF @ pack12 0xFFF 0x004 @ pack12 0xFFF 0x000 @ replicate 4599 0"

text \<open>The root directory region (14 sectors): a subdirectory at cluster 2, a file at 3.\<close>

definition volume_root :: "u8 list" where
  "volume_root =
     dir_slot [0x53, 0x55, 0x42, 0x20, 0x20, 0x20, 0x20, 0x20, 0x20, 0x20, 0x20] 0x10 2
       @ dir_slot [0x46, 0x49, 0x4C, 0x45, 0x20, 0x20, 0x20, 0x20, 0x54, 0x58, 0x54] 0x20 3
       @ replicate 7104 0"

text \<open>
  Cluster 2, the subdirectory: its own entry (first cluster 2), the parent entry (first cluster
  0) and a file entry (first cluster 3).
\<close>

definition volume_subdir :: "u8 list" where
  "volume_subdir =
     dir_slot [0x2E, 0x20, 0x20, 0x20, 0x20, 0x20, 0x20, 0x20, 0x20, 0x20, 0x20] 0x10 2
       @ dir_slot [0x2E, 0x2E, 0x20, 0x20, 0x20, 0x20, 0x20, 0x20, 0x20, 0x20, 0x20] 0x10 0
       @ dir_slot [0x4E, 0x4F, 0x54, 0x45, 0x20, 0x20, 0x20, 0x20, 0x54, 0x58, 0x54] 0x20 3
       @ replicate 416 0"

text \<open>The whole image: boot sector, two FATs, root directory, clusters 2, 3 and 4.\<close>

definition floppy_volume :: "u8 list" where
  "floppy_volume =
     floppy_boot @ volume_fat @ volume_fat @ volume_root @ volume_subdir
       @ replicate 512 0x61 @ replicate 512 0x62"

text \<open>
  The same image without its data area (it ends after the root directory, 33 sectors), and the
  floppy boot sector followed by two sectors only (the image ends inside the first FAT).
\<close>

definition image_without_data :: "u8 list" where
  "image_without_data = floppy_boot @ volume_fat @ volume_fat @ volume_root"

definition image_cut_in_fat :: "u8 list" where
  "image_cut_in_fat = floppy_boot @ replicate 1024 0"

text \<open>
  A volume whose subdirectory takes two clusters: the FAT entry of cluster 2 is 3 and that of
  cluster 3 ends the chain; cluster 2 holds sixteen entries and cluster 3 one more.
\<close>

definition long_dir_fat :: "u8 list" where
  "long_dir_fat = pack12 0xFF0 0xFFF @ pack12 0x003 0xFFF @ replicate 4602 0"

definition long_dir_first :: "u8 list" where
  "long_dir_first =
     dir_slot [0x2E, 0x20, 0x20, 0x20, 0x20, 0x20, 0x20, 0x20, 0x20, 0x20, 0x20] 0x10 2
       @ dir_slot [0x2E, 0x2E, 0x20, 0x20, 0x20, 0x20, 0x20, 0x20, 0x20, 0x20, 0x20] 0x10 0
       @ dir_slot [0x46, 0x30, 0x31, 0x20, 0x20, 0x20, 0x20, 0x20, 0x54, 0x58, 0x54] 0x20 0
       @ dir_slot [0x46, 0x30, 0x32, 0x20, 0x20, 0x20, 0x20, 0x20, 0x54, 0x58, 0x54] 0x20 0
       @ dir_slot [0x46, 0x30, 0x33, 0x20, 0x20, 0x20, 0x20, 0x20, 0x54, 0x58, 0x54] 0x20 0
       @ dir_slot [0x46, 0x30, 0x34, 0x20, 0x20, 0x20, 0x20, 0x20, 0x54, 0x58, 0x54] 0x20 0
       @ dir_slot [0x46, 0x30, 0x35, 0x20, 0x20, 0x20, 0x20, 0x20, 0x54, 0x58, 0x54] 0x20 0
       @ dir_slot [0x46, 0x30, 0x36, 0x20, 0x20, 0x20, 0x20, 0x20, 0x54, 0x58, 0x54] 0x20 0
       @ dir_slot [0x46, 0x30, 0x37, 0x20, 0x20, 0x20, 0x20, 0x20, 0x54, 0x58, 0x54] 0x20 0
       @ dir_slot [0x46, 0x30, 0x38, 0x20, 0x20, 0x20, 0x20, 0x20, 0x54, 0x58, 0x54] 0x20 0
       @ dir_slot [0x46, 0x30, 0x39, 0x20, 0x20, 0x20, 0x20, 0x20, 0x54, 0x58, 0x54] 0x20 0
       @ dir_slot [0x46, 0x31, 0x30, 0x20, 0x20, 0x20, 0x20, 0x20, 0x54, 0x58, 0x54] 0x20 0
       @ dir_slot [0x46, 0x31, 0x31, 0x20, 0x20, 0x20, 0x20, 0x20, 0x54, 0x58, 0x54] 0x20 0
       @ dir_slot [0x46, 0x31, 0x32, 0x20, 0x20, 0x20, 0x20, 0x20, 0x54, 0x58, 0x54] 0x20 0
       @ dir_slot [0x46, 0x31, 0x33, 0x20, 0x20, 0x20, 0x20, 0x20, 0x54, 0x58, 0x54] 0x20 0
       @ dir_slot [0x46, 0x31, 0x34, 0x20, 0x20, 0x20, 0x20, 0x20, 0x54, 0x58, 0x54] 0x20 0"

definition long_dir_second :: "u8 list" where
  "long_dir_second =
     dir_slot [0x46, 0x31, 0x35, 0x20, 0x20, 0x20, 0x20, 0x20, 0x54, 0x58, 0x54] 0x20 0
       @ replicate 480 0"

definition long_dir_volume :: "u8 list" where
  "long_dir_volume =
     floppy_boot @ long_dir_fat @ long_dir_fat @ volume_root @ long_dir_first @ long_dir_second"

text \<open>
  A volume with the same chain (cluster 2, then 3) for its subdirectory: cluster 2 holds the
  entries of the sample subdirectory, cluster 3 an entry whose first cluster is 2, the first
  cluster of the directory, and an entry whose first cluster is 3.
\<close>

definition back_ref_cluster :: "u8 list" where
  "back_ref_cluster =
     dir_slot [0x42, 0x41, 0x43, 0x4B, 0x20, 0x20, 0x20, 0x20, 0x20, 0x20, 0x20] 0x10 2
       @ dir_slot [0x53, 0x45, 0x4C, 0x46, 0x20, 0x20, 0x20, 0x20, 0x20, 0x20, 0x20] 0x10 3
       @ replicate 448 0"


text \<open>
  The volume with the chain 2, 3 cut after cluster 2: cluster 3 lies beyond the image.
\<close>

definition cut_chain_volume :: "u8 list" where
  "cut_chain_volume = floppy_boot @ long_dir_fat @ long_dir_fat @ volume_root @ volume_subdir"

text \<open>
  An image whose boot sector gives 0 sectors per cluster (512 bytes per sector, 2 FATs of 9
  sectors, 224 root entries). \<open>get_fat_table\<close> then reads the table from offset 0, so the bytes
  3 to 5 of the boot sector are the FAT entries 2 and 3: entry 2 is 3 and entry 3 ends the chain.
\<close>

definition thin_image :: "u8 list" where
  "thin_image =
     replicate 3 0 @ pack12 0x003 0xFFF @ replicate 5 0
       @ [0x00, 0x02, 0x00, 0x01, 0x00, 0x02, 0xE0, 0x00, 0x40, 0x0B, 0xF0, 0x09, 0x00]
       @ replicate 488 0 @ replicate 4096 0"

text \<open>The statics after \<open>fatfs_init\<close> on an image, from power-on, every allocation granted.\<close>

definition mounted :: "u8 list \<Rightarrow> machine" where
  "mounted img =
     (case fatfs_init generous (Some img) power_on of
        Inl f \<Rightarrow> power_on
      | Inr (Cluster_size, m) \<Rightarrow> m)"

section \<open>Properties\<close>

subsection \<open>FAT entries and the sector size\<close>

lemma lt12_bit: "(a::u16) < 0x1000 \<Longrightarrow> bit a n \<Longrightarrow> n < 12"
proof -
  assume a: "a < 0x1000" and b: "bit a n"
  have "a < 2 ^ 12" using a by simp
  then have "take_bit 12 a = a" by (simp add: less_mask_eq take_bit_eq_mask)
  then have "bit (take_bit 12 a) n" using b by simp
  then show ?thesis by (simp add: bit_simps)
qed

lemma bits_lt12: 
  assumes "\<And>n. bit (v::u16) n \<Longrightarrow> n < 12" shows "v \<le> 0xFFF"
proof -
  have "take_bit 12 v = v"
    by (rule bit_word_eqI) (auto simp: bit_simps dest: assms)
  then have "v AND mask 12 = v" by (simp add: take_bit_eq_mask)
  moreover have "v AND mask 12 < 2 ^ 12" by (rule and_mask_less_size) (simp add: word_size)
  ultimately have "v < 0x1000" by simp
  then show ?thesis by (simp add: word_less_nat_alt word_le_nat_alt)
qed

lemma mask4_15: "(15::u8) = mask 4" by (simp add: mask_eq_exp_minus_1)

lemma mask4_240: "(240::u8) = push_bit 4 (mask 4)" by (simp add: mask_eq_exp_minus_1)

lemma even_entry_le: "push_bit 8 (ucast ((x::u8) AND 0x0F)) OR ucast (y::u8) \<le> (0xFFF::u16)"
  by (rule bits_lt12) (auto simp: bit_simps mask4_15 dest: bit_imp_le_length)

lemma odd_entry_le: "push_bit 4 (ucast (x::u8)) OR drop_bit 4 (ucast ((y::u8) AND 0xF0)) \<le> (0xFFF::u16)"
  by (rule bits_lt12) (auto simp: bit_simps mask4_240 dest: bit_imp_le_length)

lemma get_fat_entry_next_le:
  "get_fat_entry_next m n = Inr v \<Longrightarrow> v \<le> 0xFFF"
  by (auto simp: get_fat_entry_next_def Let_def even_entry_le odd_entry_le split: option.splits if_splits)

lemma ge12_nbit: "(a::u16) < 0x1000 \<Longrightarrow> 12 \<le> j \<Longrightarrow> \<not> bit a j"
  using lt12_bit [of a j] by auto

lemma even_dec:
  assumes a: "(a::u16) < 0x1000"
  shows "push_bit 8 (ucast ((ucast (drop_bit 8 a) OR push_bit 4 (ucast (b::u16)) :: u8) AND 0x0F))
           OR ucast (ucast a :: u8) = (a :: u16)"
proof (rule bit_word_eqI)
  fix n assume "n < LENGTH(16)"
  then show "bit (push_bit 8 (ucast ((ucast (drop_bit 8 a) OR push_bit 4 (ucast b) :: u8) AND 0x0F))
           OR ucast (ucast a :: u8) :: u16) n = bit a n"
    using ge12_nbit [OF a, of n] by (cases "12 \<le> n") (auto simp: bit_simps mask4_15)
qed

lemma odd_dec:
  assumes a: "(a::u16) < 0x1000" and b: "b < 0x1000"
  shows "push_bit 4 (ucast (ucast (drop_bit 4 b) :: u8))
           OR drop_bit 4 (ucast ((ucast (drop_bit 8 a) OR push_bit 4 (ucast (b::u16)) :: u8) AND 0xF0))
         = (b :: u16)"
proof (rule bit_word_eqI)
  fix n assume "n < LENGTH(16)"
  then show "bit (push_bit 4 (ucast (ucast (drop_bit 4 b) :: u8))
           OR drop_bit 4 (ucast ((ucast (drop_bit 8 a) OR push_bit 4 (ucast b) :: u8) AND 0xF0)) :: u16) n
         = bit b n"
    using ge12_nbit [OF a, of "n + 12"] ge12_nbit [OF a, of "12 + n"] ge12_nbit [OF b, of n]
    by (cases "4 \<le> n"; cases "12 \<le> n") (auto simp: bit_simps mask4_240)
qed

lemma take3_nth:
  assumes "take 3 (drop k t) = [x, y, z]"
  shows "t ! k = x \<and> t ! (k + 1) = y \<and> t ! (k + 2) = z \<and> k + 2 < length t"
proof -
  have l: "length (take 3 (drop k t)) = 3" using assms by simp
  then have len: "k + 2 < length t" by simp
  have "take 3 (drop k t) ! 0 = t ! (k + 0)" "take 3 (drop k t) ! 1 = t ! (k + 1)"
      "take 3 (drop k t) ! 2 = t ! (k + 2)"
    using len by simp_all
  then show ?thesis using len by (simp add: assms)
qed

text \<open>
  C1. With the table in bounds, \<open>get_fat_entry_next\<close> at an even index \<open>n\<close> is the low nibble of byte
  \<open>3n/2 + 1\<close> shifted left by 8, or-ed with byte \<open>3n/2\<close>; at an odd index it is byte \<open>3n/2 + 1\<close>
  shifted left by 4, or-ed with the high nibble of byte \<open>3n/2\<close> shifted right by 4. Hence two
  12-bit values packed into the three bytes of an even/odd pair of entries are read back exactly.
\<close>

theorem get_fat_entry_next_layout:
  assumes tbl: "s_fat_table m = Some t"
  shows "(3 * unat n div 2 + 1 < length t \<longrightarrow> even (unat n) \<longrightarrow>
            get_fat_entry_next m n
              = Inr (push_bit 8 (ucast (t ! (3 * unat n div 2 + 1) AND 0x0F))
                       OR ucast (t ! (3 * unat n div 2))))
       \<and> (3 * unat n div 2 + 1 < length t \<longrightarrow> odd (unat n) \<longrightarrow>
            get_fat_entry_next m n
              = Inr (push_bit 4 (ucast (t ! (3 * unat n div 2 + 1)))
                       OR drop_bit 4 (ucast (t ! (3 * unat n div 2) AND 0xF0))))
       \<and> (a < 0x1000 \<longrightarrow> b < 0x1000 \<longrightarrow> even (unat n) \<longrightarrow> unat n < 65535 \<longrightarrow>
            take 3 (drop (3 * unat n div 2) t) = pack12 a b \<longrightarrow>
            get_fat_entry_next m n = Inr a \<and> get_fat_entry_next m (n + 1) = Inr b)"
proof (intro conjI impI)
  assume "3 * unat n div 2 + 1 < length t" "even (unat n)"
  then show "get_fat_entry_next m n
              = Inr (push_bit 8 (ucast (t ! (3 * unat n div 2 + 1) AND 0x0F))
                       OR ucast (t ! (3 * unat n div 2)))"
    using tbl by (simp add: get_fat_entry_next_def Let_def even_iff_mod_2_eq_zero)
next
  assume "3 * unat n div 2 + 1 < length t" "odd (unat n)"
  then show "get_fat_entry_next m n
              = Inr (push_bit 4 (ucast (t ! (3 * unat n div 2 + 1)))
                       OR drop_bit 4 (ucast (t ! (3 * unat n div 2) AND 0xF0)))"
    using tbl by (simp add: get_fat_entry_next_def Let_def odd_iff_mod_2_eq_one)
next
  assume a: "a < 0x1000" and b: "b < 0x1000" and ev: "even (unat n)" and k: "unat n < 65535"
    and p: "take 3 (drop (3 * unat n div 2) t) = pack12 a b"
  define j where "j = 3 * unat n div 2"
  from p have nth: "t ! j = ucast a"
      "t ! (j + 1) = ucast (drop_bit 8 a) OR push_bit 4 (ucast b)"
      "t ! (j + 2) = ucast (drop_bit 4 b)" "j + 2 < length t"
    using take3_nth [of j t] by (simp_all add: pack12_def j_def)
  have u1: "unat (n + 1) = unat n + 1"
    using k by (simp add: unat_word_ariths)
  have d1: "3 * (unat n + 1) div 2 = j + 1"
    using ev unfolding j_def by presburger
  have od: "(unat n + 1) mod 2 \<noteq> 0" using ev by presburger
  have ev0: "unat n mod 2 = 0" using ev by presburger
  show "get_fat_entry_next m n = Inr a"
    using tbl nth a ev0 unfolding get_fat_entry_next_def Let_def j_def [symmetric]
    by (simp add: even_dec)
  show "get_fat_entry_next m (n + 1) = Inr b"
    using tbl nth a b od unfolding get_fat_entry_next_def Let_def u1 d1
    by (simp add: odd_dec)
qed

theorem get_fat_entry_next_layout_witness:
  "get_fat_entry_next fat_sample 2 = Inr 0xABC \<and> get_fat_entry_next fat_sample 3 = Inr 0x123
   \<and> get_fat_entry_next fat_sample 0 = Inr 0xFF0 \<and> get_fat_entry_next fat_sample 1 = Inr 0xFFF"
  using get_fat_entry_next_layout [of fat_sample "[0xF0, 0xFF, 0xFF] @ pack12 0xABC 0x123" 2 "0xABC" "0x123"]
     get_fat_entry_next_layout [of fat_sample "[0xF0, 0xFF, 0xFF] @ pack12 0xABC 0x123" 0 "0xFF0" "0xFFF"]
  by (simp add: fat_sample_def pack12_def)

text \<open>
  C9, as amended. \<open>kmc_update_sector_size\<close> returns 1 and stores the new sector size exactly when
  the size is a multiple of 512, zero included; otherwise it returns 0 and leaves the statics as
  they were.
\<close>

theorem kmc_update_sector_size_multiple:
  "kmc_update_sector_size n m
     = (if 512 dvd unat n then (1, m\<lparr>s_sectorSize := n\<rparr>) else (0, m))"
  by (simp add: kmc_update_sector_size_def KMC_DEFAULT_SECTOR_SIZE_def dvd_eq_mod_eq_0)

text \<open>
  C9 as stated fails at 0: after \<open>kmc_init\<close> the sector size is 512, and the request for size 0 is
  accepted and stored.
\<close>

theorem kmc_update_sector_size_zero_accepted:
  "s_sectorSize (snd (kmc_init (Some floppy_boot) power_on)) = 512
   \<and> fst (kmc_update_sector_size 0 (snd (kmc_init (Some floppy_boot) power_on))) = 1
   \<and> s_sectorSize (snd (kmc_update_sector_size 0 (snd (kmc_init (Some floppy_boot) power_on)))) = 0"
  by (simp add: kmc_update_sector_size_def kmc_init_def KMC_DEFAULT_SECTOR_SIZE_def Let_def)

subsection \<open>Mounting\<close>

lemma fseek_fread_open:
  assumes "s_fptr m = Some img" and "length (take want (drop index img)) \<le> length b"
  shows "fseek_fread m index want (Some b)
           = Inr (m\<lparr>io_log := io_log m @ [(index, want)]\<rparr>,
                  of_nat (length (take want (drop index img))),
                  Some (take want (drop index img) @ drop (length (take want (drop index img))) b))"
  using assms by (auto simp: fseek_fread_def Let_def)

lemma kmc_read_sector_boot:
  assumes "s_fptr m = Some img" "s_sectorSize m = 512" "512 \<le> length img"
  shows "kmc_read_sector m 0 (Some (replicate 512 0))
           = Inr (m\<lparr>io_log := io_log m @ [(0, 512)]\<rparr>, 512, Some (take 512 img))"
  using assms by (simp add: kmc_read_sector_def fseek_fread_open [where img = img] min_def)

lemma unat_u32_lt: "unat (x::u32) < 4294967296"
  using unsigned_less [of x, where 'a = nat] by simp

lemma of_nat_eq_u32:
  assumes "a < 4294967296" "b < 4294967296"
  shows "((of_nat a :: u32) = of_nat b) = (a = b)"
proof -
  have "unat (of_nat a :: u32) = a" "unat (of_nat b :: u32) = b"
    using assms by (simp_all add: unat_of_nat)
  then show ?thesis by metis
qed

lemma get_fat_table_keeps:
  assumes "s_fptr m = Some img" "s_sectorSize m = bytes_per_sector (s_FAT12Infor m)"
  shows "\<exists>m'. get_fat_table A m = Inr m' \<and> s_FAT12Infor m' = s_FAT12Infor m
           \<and> s_fptr m' = s_fptr m \<and> s_sectorSize m' = s_sectorSize m
           \<and> (calloc_ok A (unat (ucast (bytes_per_sector (s_FAT12Infor m))
                                    * ucast (Sectors_per_FAT (s_FAT12Infor m)) :: u32))
                \<and> length (drop (unat (ucast (bytes_per_sector (s_FAT12Infor m))
                                    * ucast (sectors_per_cluster (s_FAT12Infor m)) :: u32)) img)
                    < unat (ucast (bytes_per_sector (s_FAT12Infor m))
                                    * ucast (Sectors_per_FAT (s_FAT12Infor m)) :: u32)
                \<longrightarrow> reported m' = reported m @ [MULTIPLE_SECTOR_READ_ERROR])
           \<and> (calloc_ok A (unat (ucast (bytes_per_sector (s_FAT12Infor m))
                                    * ucast (Sectors_per_FAT (s_FAT12Infor m)) :: u32))
                \<and> unat (ucast (bytes_per_sector (s_FAT12Infor m))
                                    * ucast (Sectors_per_FAT (s_FAT12Infor m)) :: u32)
                    \<le> length (drop (unat (ucast (bytes_per_sector (s_FAT12Infor m))
                                    * ucast (sectors_per_cluster (s_FAT12Infor m)) :: u32)) img)
                \<longrightarrow> reported m' = reported m
                  \<and> s_fat_table m'
                      = Some (take (unat (ucast (bytes_per_sector (s_FAT12Infor m))
                                    * ucast (Sectors_per_FAT (s_FAT12Infor m)) :: u32))
                               (drop (unat (ucast (bytes_per_sector (s_FAT12Infor m))
                                    * ucast (sectors_per_cluster (s_FAT12Infor m)) :: u32)) img)))"
proof (cases "calloc_ok A (unat (ucast (bytes_per_sector (s_FAT12Infor m)) * ucast (Sectors_per_FAT (s_FAT12Infor m)) :: u32))")
  case True
  define size where "size = unat (ucast (bytes_per_sector (s_FAT12Infor m))
                                    * ucast (Sectors_per_FAT (s_FAT12Infor m)) :: u32)"
  define rest where "rest = drop (unat (ucast (bytes_per_sector (s_FAT12Infor m))
                                    * ucast (sectors_per_cluster (s_FAT12Infor m)) :: u32)) img"
  have sz: "size < 4294967296" unfolding size_def by (rule unat_u32_lt)
  have w: "(ucast (Sectors_per_FAT (s_FAT12Infor m)) * ucast (bytes_per_sector (s_FAT12Infor m)) :: u32)
             = of_nat size"
    by (simp add: size_def mult.commute)
  have ne: "length rest \<le> size \<Longrightarrow> ((of_nat (length rest) :: u32) = of_nat size) = (length rest = size)"
    using sz by (simp add: of_nat_eq_u32)
  show ?thesis
    using assms True ne
    by (auto simp: get_fat_table_def Let_def kmc_read_multi_sector_def
          fseek_fread_open [where img = img] error_callback_def w
          size_def [symmetric] rest_def [symmetric] min_def)
next
  case False
  then show ?thesis by (simp add: get_fat_table_def Let_def error_callback_def)
qed

lemma parse_bootsector_take:
  "512 \<le> length img \<Longrightarrow> parse_bootsector (take 512 img) m = parse_bootsector img m"
  by (simp add: parse_bootsector_def)

lemma fatfs_init_mounted:
  assumes img: "512 \<le> length img" and alloc: "calloc_ok A 512"
    and I: "I = s_FAT12Infor (parse_bootsector img m)"
    and nz: "bytes_per_sector I \<noteq> 0" and dv: "512 dvd unat (bytes_per_sector I)"
  shows "\<exists>m'. fatfs_init A (Some img) m
                 = Inr (ucast (sectors_per_cluster I) * ucast (bytes_per_sector I), m')
            \<and> s_FAT12Infor m' = I
            \<and> num_cluster_in_root_directory m'
                = ucast ((ucast (Maximum_number_of_root_directory_entries I) * 32 :: u32)
                           div ucast (bytes_per_sector I))
            \<and> cluster_started_in_physical_of_rootdirectory m'
                = ucast (ucast (Number_of_FATs I) * ucast (Sectors_per_FAT I) + 1 :: u32)
            \<and> Cluster_starts_in_physical_of_the_data_area m'
                = ucast (ucast (Number_of_FATs I) * ucast (Sectors_per_FAT I)
                           + ucast (num_cluster_in_root_directory m') + 1 :: u32)
            \<and> s_fptr m' = Some img \<and> s_sectorSize m' = bytes_per_sector I
            \<and> (calloc_ok A (unat (ucast (bytes_per_sector I) * ucast (Sectors_per_FAT I) :: u32))
                \<and> length (drop (unat (ucast (bytes_per_sector I)
                                          * ucast (sectors_per_cluster I) :: u32)) img)
                    < unat (ucast (bytes_per_sector I) * ucast (Sectors_per_FAT I) :: u32)
                \<longrightarrow> reported m' = reported m @ [MULTIPLE_SECTOR_READ_ERROR])
            \<and> (calloc_ok A (unat (ucast (bytes_per_sector I) * ucast (Sectors_per_FAT I) :: u32))
                \<and> unat (ucast (bytes_per_sector I) * ucast (Sectors_per_FAT I) :: u32)
                    \<le> length (drop (unat (ucast (bytes_per_sector I)
                                          * ucast (sectors_per_cluster I) :: u32)) img)
                \<longrightarrow> reported m' = reported m
                  \<and> s_fat_table m'
                      = Some (take (unat (ucast (bytes_per_sector I) * ucast (Sectors_per_FAT I) :: u32))
                               (drop (unat (ucast (bytes_per_sector I)
                                          * ucast (sectors_per_cluster I) :: u32)) img)))"
proof -
  define m1 where "m1 = m\<lparr>s_fptr := Some img, s_sectorSize := 512\<rparr>"
  define m2 where "m2 = m1\<lparr>io_log := io_log m1 @ [(0, 512)]\<rparr>"
  define m3 where "m3 = parse_bootsector img m2"
  define m4 where "m4 = m3\<lparr>s_sectorSize := bytes_per_sector I\<rparr>"
  have k: "kmc_init (Some img) m = (1, m1)"
    by (simp add: kmc_init_def m1_def KMC_DEFAULT_SECTOR_SIZE_def)
  have r: "kmc_read_sector m1 0 (Some (replicate 512 0)) = Inr (m2, 512, Some (take 512 img))"
    unfolding m2_def by (rule kmc_read_sector_boot) (simp_all add: m1_def img)
  have I3: "s_FAT12Infor m3 = I"
    by (simp add: I m3_def m2_def m1_def parse_bootsector_def)
  have u: "kmc_update_sector_size (bytes_per_sector I) m3 = (1, m4)"
    using dv by (simp add: kmc_update_sector_size_def KMC_DEFAULT_SECTOR_SIZE_def m4_def dvd_eq_mod_eq_0)
  have I4: "s_FAT12Infor m4 = I" by (simp add: m4_def I3)
  have f4: "s_fptr m4 = Some img"
    by (simp add: m4_def m3_def m2_def m1_def parse_bootsector_def)
  have s4: "s_sectorSize m4 = bytes_per_sector (s_FAT12Infor m4)"
    by (simp add: I4) (simp add: m4_def)
  have r4: "reported m4 = reported m"
    by (simp add: m4_def m3_def m2_def m1_def parse_bootsector_def)
  obtain m5 where g: "get_fat_table A m4 = Inr m5" and I5: "s_FAT12Infor m5 = I"
    and f5: "s_fptr m5 = Some img" and s5: "s_sectorSize m5 = bytes_per_sector I"
    and r5: "calloc_ok A (unat (ucast (bytes_per_sector I) * ucast (Sectors_per_FAT I) :: u32))
                \<and> length (drop (unat (ucast (bytes_per_sector I)
                                          * ucast (sectors_per_cluster I) :: u32)) img)
                    < unat (ucast (bytes_per_sector I) * ucast (Sectors_per_FAT I) :: u32)
                \<longrightarrow> reported m5 = reported m @ [MULTIPLE_SECTOR_READ_ERROR]"
    and t5: "calloc_ok A (unat (ucast (bytes_per_sector I) * ucast (Sectors_per_FAT I) :: u32))
                \<and> unat (ucast (bytes_per_sector I) * ucast (Sectors_per_FAT I) :: u32)
                    \<le> length (drop (unat (ucast (bytes_per_sector I)
                                          * ucast (sectors_per_cluster I) :: u32)) img)
                \<longrightarrow> reported m5 = reported m
                  \<and> s_fat_table m5
                      = Some (take (unat (ucast (bytes_per_sector I) * ucast (Sectors_per_FAT I) :: u32))
                               (drop (unat (ucast (bytes_per_sector I)
                                          * ucast (sectors_per_cluster I) :: u32)) img))"
    using get_fat_table_keeps [OF f4 s4, of A] unfolding I4 f4 r4 by (auto simp: m4_def)
  show ?thesis
    using alloc nz r5 t5
    by (simp add: fatfs_init_def k KMC_DEFAULT_SECTOR_SIZE_def r parse_bootsector_take img
          m3_def [symmetric] I3 u g I5 Let_def f5 s5)
qed

lemma unat_u8_lt: "unat (x::u8) < 256" using unsigned_less [of x, where 'a = nat] by simp

lemma unat_u16_lt: "unat (x::u16) < 65536" using unsigned_less [of x, where 'a = nat] by simp

lemma unat_ucast_8_32: "unat (ucast (x::u8) :: u32) = unat x"
  using unat_u8_lt [of x] by (simp add: unsigned_ucast_eq take_bit_nat_eq_self)

lemma unat_ucast_16_32: "unat (ucast (x::u16) :: u32) = unat x"
  using unat_u16_lt [of x] by (simp add: unsigned_ucast_eq take_bit_nat_eq_self)

lemma unat_ucast_32_16: "unat (ucast (x::u32) :: u16) = unat x mod 65536"
  by (simp add: unsigned_ucast_eq take_bit_eq_mod)

lemma mod_shuffle: "(p + n + 1) mod 65536 = ((p + 1) mod 65536 + n) mod (65536::nat)"
  by presburger

lemma root_count_nat:
  assumes "512 \<le> unat (bps::u16)"
  shows "unat (ucast ((ucast (mre::u16) * 32 :: u32) div ucast bps) :: u16) = unat mre * 32 div unat bps"
proof -
  have a: "unat (ucast mre * 32 :: u32) = unat mre * 32"
    using unat_u16_lt [of mre] by (simp add: unat_word_ariths unat_ucast_16_32)
  have b: "unat ((ucast mre * 32 :: u32) div ucast bps) = unat mre * 32 div unat bps"
    by (simp add: unat_div a unat_ucast_16_32)
  have "unat mre * 32 div unat bps \<le> unat mre * 32 div 512"
    using assms by (intro div_le_mono2) simp_all
  also have "\<dots> < 65536" using unat_u16_lt [of mre] by simp
  finally show ?thesis by (simp add: unat_ucast_32_16 b)
qed

lemma root_start_nat:
  "unat (ucast (ucast (nf::u8) * ucast (spf::u16) + 1 :: u32) :: u16) = (unat nf * unat spf + 1) mod 65536"
proof -
  have "unat nf * unat spf < 256 * 65536"
    using unat_u8_lt [of nf] unat_u16_lt [of spf] by (intro mult_strict_mono) simp_all
  then have "unat (ucast nf * ucast spf + 1 :: u32) = unat nf * unat spf + 1"
    by (simp add: unat_word_ariths unat_ucast_8_32 unat_ucast_16_32)
  then show ?thesis by (simp add: unat_ucast_32_16)
qed

lemma data_start_nat:
  "unat (ucast (ucast (nf::u8) * ucast (spf::u16) + ucast (num::u16) + 1 :: u32) :: u16)
     = (unat nf * unat spf + unat num + 1) mod 65536"
proof -
  have "unat nf * unat spf < 256 * 65536"
    using unat_u8_lt [of nf] unat_u16_lt [of spf] by (intro mult_strict_mono) simp_all
  then have "unat (ucast nf * ucast spf + ucast num + 1 :: u32) = unat nf * unat spf + unat num + 1"
    using unat_u16_lt [of num]
    by (simp add: unat_word_ariths unat_ucast_8_32 unat_ucast_16_32)
  then show ?thesis by (simp add: unat_ucast_32_16)
qed

lemma cluster_size_nat:
  "unat (ucast (spc::u16) * ucast (bps::u16) :: u32) = unat spc * unat bps"
proof -
  have "unat spc * unat bps \<le> 65535 * 65535"
    using unat_u16_lt [of spc] unat_u16_lt [of bps] by (intro mult_le_mono) simp_all
  then have "unat spc * unat bps < 4294967296" by simp
  then show ?thesis by (simp add: unat_word_ariths unat_ucast_16_32)
qed

lemma fatfs_init_rejected:
  assumes img: "512 \<le> length img" and alloc: "calloc_ok A 512"
    and nd: "\<not> 512 dvd unat (bytes_per_sector (s_FAT12Infor (parse_bootsector img m)))"
  shows "\<exists>m'. fatfs_init A (Some img) m = Inr (0, m')
            \<and> reported m' = reported m @ [ERROR_UPDATING_SECTOR_SIZE]
            \<and> num_cluster_in_root_directory m' = num_cluster_in_root_directory m
            \<and> cluster_started_in_physical_of_rootdirectory m'
                = cluster_started_in_physical_of_rootdirectory m
            \<and> Cluster_starts_in_physical_of_the_data_area m'
                = Cluster_starts_in_physical_of_the_data_area m"
proof -
  define m1 where "m1 = m\<lparr>s_fptr := Some img, s_sectorSize := 512\<rparr>"
  define m2 where "m2 = m1\<lparr>io_log := io_log m1 @ [(0, 512)]\<rparr>"
  define m3 where "m3 = parse_bootsector img m2"
  have k: "kmc_init (Some img) m = (1, m1)"
    by (simp add: kmc_init_def m1_def KMC_DEFAULT_SECTOR_SIZE_def)
  have r: "kmc_read_sector m1 0 (Some (replicate 512 0)) = Inr (m2, 512, Some (take 512 img))"
    unfolding m2_def by (rule kmc_read_sector_boot) (simp_all add: m1_def img)
  have I3: "s_FAT12Infor m3 = s_FAT12Infor (parse_bootsector img m)"
    by (simp add: m3_def m2_def m1_def parse_bootsector_def)
  have u: "kmc_update_sector_size (bytes_per_sector (s_FAT12Infor m3)) m3 = (0, m3)"
    using nd by (simp add: kmc_update_sector_size_def KMC_DEFAULT_SECTOR_SIZE_def I3
                   dvd_eq_mod_eq_0)
  have keep: "reported m3 = reported m"
      "num_cluster_in_root_directory m3 = num_cluster_in_root_directory m"
      "cluster_started_in_physical_of_rootdirectory m3
         = cluster_started_in_physical_of_rootdirectory m"
      "Cluster_starts_in_physical_of_the_data_area m3
         = Cluster_starts_in_physical_of_the_data_area m"
    by (simp_all add: m3_def m2_def m1_def parse_bootsector_def)
  show ?thesis
    using alloc keep
    by (simp add: fatfs_init_def k KMC_DEFAULT_SECTOR_SIZE_def r parse_bootsector_take img
          m3_def [symmetric] u Let_def error_callback_def)
qed

lemma fatfs_init_divides_by_zero:
  assumes img: "512 \<le> length img" and alloc: "calloc_ok A 512"
    and z: "bytes_per_sector (s_FAT12Infor (parse_bootsector img m)) = 0"
  shows "fatfs_init A (Some img) m = Inl DivisionByZero"
proof -
  define m1 where "m1 = m\<lparr>s_fptr := Some img, s_sectorSize := 512\<rparr>"
  define m2 where "m2 = m1\<lparr>io_log := io_log m1 @ [(0, 512)]\<rparr>"
  define m3 where "m3 = parse_bootsector img m2"
  define m4 where "m4 = m3\<lparr>s_sectorSize := 0\<rparr>"
  have k: "kmc_init (Some img) m = (1, m1)"
    by (simp add: kmc_init_def m1_def KMC_DEFAULT_SECTOR_SIZE_def)
  have r: "kmc_read_sector m1 0 (Some (replicate 512 0)) = Inr (m2, 512, Some (take 512 img))"
    unfolding m2_def by (rule kmc_read_sector_boot) (simp_all add: m1_def img)
  have I3: "s_FAT12Infor m3 = s_FAT12Infor (parse_bootsector img m)"
    by (simp add: m3_def m2_def m1_def parse_bootsector_def)
  have b3: "bytes_per_sector (s_FAT12Infor m3) = 0" by (simp add: I3 z)
  have u: "kmc_update_sector_size (bytes_per_sector (s_FAT12Infor m3)) m3 = (1, m4)"
    by (simp add: b3 kmc_update_sector_size_def KMC_DEFAULT_SECTOR_SIZE_def m4_def)
  have f4: "s_fptr m4 = Some img"
    by (simp add: m4_def m3_def m2_def m1_def parse_bootsector_def)
  have s4: "s_sectorSize m4 = bytes_per_sector (s_FAT12Infor m4)"
    by (simp add: m4_def b3)
  obtain m5 where g: "get_fat_table A m4 = Inr m5" and I5: "s_FAT12Infor m5 = s_FAT12Infor m4"
    using get_fat_table_keeps [OF f4 s4, of A] by blast
  have b5: "bytes_per_sector (s_FAT12Infor m5) = 0" by (simp add: I5 m4_def b3)
  show ?thesis
    using alloc
    by (simp add: fatfs_init_def k KMC_DEFAULT_SECTOR_SIZE_def r parse_bootsector_take img
          m3_def [symmetric] u g b5 Let_def)
qed

text \<open>
  C2, as amended. When the boot sector is read in full and its bytes-per-sector field is a
  non-zero multiple of 512, \<open>fatfs_init\<close> returns, and with the fields \<open>I\<close> that the boot
  sector holds at offsets 11, 13, 16, 17 and 22: the cluster size is sectors-per-cluster times
  bytes-per-sector, the root directory cluster count is (max-root-entries * 32)
  div bytes-per-sector, the root directory start is FAT-count times sectors-per-FAT plus 1 modulo
  \<open>2 ^ 16\<close> and the data area start is root directory start plus root directory cluster count
  modulo \<open>2 ^ 16\<close> (both are 16-bit variables). For 512, 1, 2, 224, 9 these are 512, 14, 19
  and 33.
\<close>

theorem fatfs_init_geometry:
  assumes img: "512 \<le> length img" and alloc: "calloc_ok A 512"
    and I: "I = s_FAT12Infor (parse_bootsector img m)"
    and nz: "bytes_per_sector I \<noteq> 0" and dv: "512 dvd unat (bytes_per_sector I)"
  shows "\<exists>Cluster_size m'.
           fatfs_init A (Some img) m = Inr (Cluster_size, m')
         \<and> s_FAT12Infor m' = I
         \<and> bytes_per_sector I = le16 (img ! 11) (img ! 12)
         \<and> sectors_per_cluster I
             = (sectors_per_cluster (s_FAT12Infor m) AND 0xFF00) OR ucast (img ! 13)
         \<and> Number_of_FATs I = img ! 16
         \<and> Maximum_number_of_root_directory_entries I = le16 (img ! 17) (img ! 18)
         \<and> Sectors_per_FAT I = le16 (img ! 22) (img ! 23)
         \<and> unat Cluster_size = unat (sectors_per_cluster I) * unat (bytes_per_sector I)
         \<and> unat (num_cluster_in_root_directory m')
             = (unat (Maximum_number_of_root_directory_entries I) * 32)
                 div unat (bytes_per_sector I)
         \<and> unat (cluster_started_in_physical_of_rootdirectory m')
             = (unat (Number_of_FATs I) * unat (Sectors_per_FAT I) + 1) mod 2 ^ 16
         \<and> unat (Cluster_starts_in_physical_of_the_data_area m')
             = (unat (cluster_started_in_physical_of_rootdirectory m')
                  + unat (num_cluster_in_root_directory m')) mod 2 ^ 16
         \<and> (bytes_per_sector I = 512 \<and> sectors_per_cluster I = 1 \<and> Number_of_FATs I = 2
              \<and> Maximum_number_of_root_directory_entries I = 224 \<and> Sectors_per_FAT I = 9
              \<longrightarrow> Cluster_size = 512 \<and> num_cluster_in_root_directory m' = 14
                \<and> cluster_started_in_physical_of_rootdirectory m' = 19
                \<and> Cluster_starts_in_physical_of_the_data_area m' = 33)"
proof -
  obtain m' where
    r: "fatfs_init A (Some img) m
          = Inr (ucast (sectors_per_cluster I) * ucast (bytes_per_sector I), m')"
    and i: "s_FAT12Infor m' = I"
    and n: "num_cluster_in_root_directory m'
              = ucast ((ucast (Maximum_number_of_root_directory_entries I) * 32 :: u32)
                         div ucast (bytes_per_sector I))"
    and s: "cluster_started_in_physical_of_rootdirectory m'
              = ucast (ucast (Number_of_FATs I) * ucast (Sectors_per_FAT I) + 1 :: u32)"
    and d: "Cluster_starts_in_physical_of_the_data_area m'
              = ucast (ucast (Number_of_FATs I) * ucast (Sectors_per_FAT I)
                         + ucast (num_cluster_in_root_directory m') + 1 :: u32)"
    using fatfs_init_mounted [OF img alloc I nz dv] by blast
  have bytes: "bytes_per_sector I = le16 (img ! 11) (img ! 12)"
      "sectors_per_cluster I
         = (sectors_per_cluster (s_FAT12Infor m) AND 0xFF00) OR ucast (img ! 13)"
      "Number_of_FATs I = img ! 16"
      "Maximum_number_of_root_directory_entries I = le16 (img ! 17) (img ! 18)"
      "Sectors_per_FAT I = le16 (img ! 22) (img ! 23)"
    by (simp_all add: I parse_bootsector_def)
  have ge: "512 \<le> unat (bytes_per_sector I)"
  proof -
    have "unat (bytes_per_sector I) \<noteq> 0" using nz by (simp add: unat_eq_0)
    with dv show ?thesis by (auto simp: dvd_def)
  qed
  have n': "unat (num_cluster_in_root_directory m')
             = (unat (Maximum_number_of_root_directory_entries I) * 32)
                 div unat (bytes_per_sector I)"
    unfolding n by (rule root_count_nat [OF ge])
  have s': "unat (cluster_started_in_physical_of_rootdirectory m')
             = (unat (Number_of_FATs I) * unat (Sectors_per_FAT I) + 1) mod 2 ^ 16"
    unfolding s by (simp add: root_start_nat)
  have "unat (Cluster_starts_in_physical_of_the_data_area m')
          = (unat (Number_of_FATs I) * unat (Sectors_per_FAT I)
               + unat (num_cluster_in_root_directory m') + 1) mod 65536"
    unfolding d by (rule data_start_nat)
  also have "\<dots> = ((unat (Number_of_FATs I) * unat (Sectors_per_FAT I) + 1) mod 2 ^ 16
                      + unat (num_cluster_in_root_directory m')) mod 2 ^ 16"
    using mod_shuffle [of "unat (Number_of_FATs I) * unat (Sectors_per_FAT I)"
        "unat (num_cluster_in_root_directory m')"] by simp
  finally have d': "unat (Cluster_starts_in_physical_of_the_data_area m')
             = (unat (cluster_started_in_physical_of_rootdirectory m')
                  + unat (num_cluster_in_root_directory m')) mod 2 ^ 16"
    by (simp only: s')
  have ex: "bytes_per_sector I = 512 \<and> sectors_per_cluster I = 1 \<and> Number_of_FATs I = 2
              \<and> Maximum_number_of_root_directory_entries I = 224 \<and> Sectors_per_FAT I = 9
              \<longrightarrow> (ucast (sectors_per_cluster I) * ucast (bytes_per_sector I) :: u32) = 512
                \<and> num_cluster_in_root_directory m' = 14
                \<and> cluster_started_in_physical_of_rootdirectory m' = 19
                \<and> Cluster_starts_in_physical_of_the_data_area m' = 33"
    by (simp add: n s d)
  have "fatfs_init A (Some img) m
          = Inr (ucast (sectors_per_cluster I) * ucast (bytes_per_sector I), m')
      \<and> s_FAT12Infor m' = I
      \<and> unat (ucast (sectors_per_cluster I) * ucast (bytes_per_sector I) :: u32)
          = unat (sectors_per_cluster I) * unat (bytes_per_sector I)
      \<and> unat (num_cluster_in_root_directory m')
             = (unat (Maximum_number_of_root_directory_entries I) * 32)
                 div unat (bytes_per_sector I)
      \<and> unat (cluster_started_in_physical_of_rootdirectory m')
             = (unat (Number_of_FATs I) * unat (Sectors_per_FAT I) + 1) mod 2 ^ 16
      \<and> unat (Cluster_starts_in_physical_of_the_data_area m')
             = (unat (cluster_started_in_physical_of_rootdirectory m')
                  + unat (num_cluster_in_root_directory m')) mod 2 ^ 16"
    using r i n' s' d' by (simp add: cluster_size_nat)
  with bytes ex show ?thesis by blast
qed

lemma floppy_fields:
  "s_FAT12Infor (parse_bootsector (floppy_boot @ rest) power_on)
     = \<lparr>bytes_per_sector = 512, sectors_per_cluster = 1, Number_of_FATs = 2,
        Maximum_number_of_root_directory_entries = 224, Total_sector_count = 2880,
        Sectors_per_FAT = 9\<rparr>"
  by (simp add: parse_bootsector_def floppy_boot_def power_on_def le16_def nth_append)

lemma length_floppy_boot [simp]: "length floppy_boot = 512"
  by (simp add: floppy_boot_def)

lemma length_volume_fat [simp]: "length volume_fat = 4608"
  by (simp add: volume_fat_def pack12_def)

lemma length_volume_root [simp]: "length volume_root = 7168"
  by (simp add: volume_root_def dir_slot_def)

lemma length_volume_subdir [simp]: "length volume_subdir = 512"
  by (simp add: volume_subdir_def dir_slot_def)

theorem fatfs_init_geometry_witness:
  "\<exists>m'. fatfs_init generous (Some floppy_volume) power_on = Inr (512, m')
       \<and> num_cluster_in_root_directory m' = 14
       \<and> cluster_started_in_physical_of_rootdirectory m' = 19
       \<and> Cluster_starts_in_physical_of_the_data_area m' = 33"
proof -
  have f: "s_FAT12Infor (parse_bootsector floppy_volume power_on)
             = \<lparr>bytes_per_sector = 512, sectors_per_cluster = 1, Number_of_FATs = 2,
                Maximum_number_of_root_directory_entries = 224, Total_sector_count = 2880,
                Sectors_per_FAT = 9\<rparr>"
    unfolding floppy_volume_def by (rule floppy_fields)
  show ?thesis
    using fatfs_init_geometry [of floppy_volume generous
        "s_FAT12Infor (parse_bootsector floppy_volume power_on)" power_on]
    by (simp add: f) (auto simp: floppy_volume_def generous_def)
qed

lemma wide_fields:
  "s_FAT12Infor (parse_bootsector wide_image power_on)
     = \<lparr>bytes_per_sector = 512, sectors_per_cluster = 1, Number_of_FATs = 255,
        Maximum_number_of_root_directory_entries = 224, Total_sector_count = 2880,
        Sectors_per_FAT = 258\<rparr>"
  by (simp add: parse_bootsector_def wide_image_def power_on_def le16_def nth_append)

lemma tall_fields:
  "s_FAT12Infor (parse_bootsector tall_image power_on)
     = \<lparr>bytes_per_sector = 512, sectors_per_cluster = 1, Number_of_FATs = 2,
        Maximum_number_of_root_directory_entries = 224, Total_sector_count = 2880,
        Sectors_per_FAT = 32767\<rparr>"
  by (simp add: parse_bootsector_def tall_image_def power_on_def le16_def nth_append)

lemma odd_fields:
  "bytes_per_sector (s_FAT12Infor (parse_bootsector odd_image power_on)) = 513"
  "bytes_per_sector (s_FAT12Infor (parse_bootsector zero_image power_on)) = 0"
  by (simp_all add: parse_bootsector_def odd_image_def zero_image_def le16_def nth_append)

text \<open>
  C2 as stated fails in the two starts, which are 16-bit variables. For a boot sector with 255
  FATs of 258 sectors the product is 65790 and the root directory start is stored as 255, not
  65791. For one with 2 FATs of 32767 sectors the root directory start is 65535 and the data area
  start is stored as 13, not 65535 + 14. With 513 bytes per sector \<open>fatfs_init\<close> returns 0 and
  derives nothing (the three variables keep their initial 0); with 0 bytes per sector it divides
  by zero.
\<close>

theorem fatfs_init_wraps_at_16_bits:
  "map_sum id fst (fatfs_init generous (Some wide_image) power_on) = Inr 512
   \<and> Number_of_FATs (s_FAT12Infor (mounted wide_image)) = 255
   \<and> Sectors_per_FAT (s_FAT12Infor (mounted wide_image)) = 258
   \<and> num_cluster_in_root_directory (mounted wide_image) = 14
   \<and> cluster_started_in_physical_of_rootdirectory (mounted wide_image) = 255
   \<and> Cluster_starts_in_physical_of_the_data_area (mounted wide_image) = 269
   \<and> reported (mounted wide_image) = []
   \<and> map_sum id fst (fatfs_init generous (Some tall_image) power_on) = Inr 512
   \<and> Number_of_FATs (s_FAT12Infor (mounted tall_image)) = 2
   \<and> Sectors_per_FAT (s_FAT12Infor (mounted tall_image)) = 32767
   \<and> num_cluster_in_root_directory (mounted tall_image) = 14
   \<and> cluster_started_in_physical_of_rootdirectory (mounted tall_image) = 65535
   \<and> Cluster_starts_in_physical_of_the_data_area (mounted tall_image) = 13
   \<and> reported (mounted tall_image) = []
   \<and> map_sum id fst (fatfs_init generous (Some odd_image) power_on) = Inr 0
   \<and> num_cluster_in_root_directory (mounted odd_image) = 0
   \<and> cluster_started_in_physical_of_rootdirectory (mounted odd_image) = 0
   \<and> Cluster_starts_in_physical_of_the_data_area (mounted odd_image) = 0
   \<and> fatfs_init generous (Some zero_image) power_on = Inl DivisionByZero"
proof -
  have len: "length wide_image = 132608" "length tall_image = 16777216"
      "length odd_image = 512" "length zero_image = 512"
    by (simp_all add: wide_image_def tall_image_def odd_image_def zero_image_def)
  obtain m' where w: "fatfs_init generous (Some wide_image) power_on = Inr (512, m')"
    "s_FAT12Infor m' = \<lparr>bytes_per_sector = 512, sectors_per_cluster = 1, Number_of_FATs = 255,
        Maximum_number_of_root_directory_entries = 224, Total_sector_count = 2880,
        Sectors_per_FAT = 258\<rparr>"
    "num_cluster_in_root_directory m' = 14"
    "cluster_started_in_physical_of_rootdirectory m' = 255"
    "Cluster_starts_in_physical_of_the_data_area m' = 269"
    "reported m' = []"
    using fatfs_init_mounted [of wide_image generous
        "s_FAT12Infor (parse_bootsector wide_image power_on)" power_on]
    unfolding wide_fields
    by (simp add: generous_def len) (auto simp: power_on_def)
  obtain mt where t: "fatfs_init generous (Some tall_image) power_on = Inr (512, mt)"
    "s_FAT12Infor mt = \<lparr>bytes_per_sector = 512, sectors_per_cluster = 1, Number_of_FATs = 2,
        Maximum_number_of_root_directory_entries = 224, Total_sector_count = 2880,
        Sectors_per_FAT = 32767\<rparr>"
    "num_cluster_in_root_directory mt = 14"
    "cluster_started_in_physical_of_rootdirectory mt = 65535"
    "Cluster_starts_in_physical_of_the_data_area mt = 13"
    "reported mt = []"
    using fatfs_init_mounted [of tall_image generous
        "s_FAT12Infor (parse_bootsector tall_image power_on)" power_on]
    unfolding tall_fields
    by (simp add: generous_def len) (auto simp: power_on_def)
  obtain m'' where o: "fatfs_init generous (Some odd_image) power_on = Inr (0, m'')"
    "num_cluster_in_root_directory m'' = 0"
    "cluster_started_in_physical_of_rootdirectory m'' = 0"
    "Cluster_starts_in_physical_of_the_data_area m'' = 0"
    using fatfs_init_rejected [of odd_image generous power_on]
    by (simp add: generous_def len odd_fields) (auto simp: power_on_def)
  have z: "fatfs_init generous (Some zero_image) power_on = Inl DivisionByZero"
    by (rule fatfs_init_divides_by_zero) (simp_all add: generous_def len odd_fields)
  show ?thesis
    using w t o z by (simp add: mounted_def)
qed

text \<open>
  C8 at a failing input: the image ends inside the first FAT, so the FAT read is short.
  \<open>fatfs_init\<close> reports \<open>MULTIPLE_SECTOR_READ_ERROR\<close> and still returns the cluster size 512.
\<close>

theorem fatfs_init_short_fat_read:
  "\<exists>m'. fatfs_init generous (Some image_cut_in_fat) power_on = Inr (512, m')
       \<and> reported m' = [MULTIPLE_SECTOR_READ_ERROR]"
  using fatfs_init_mounted [of image_cut_in_fat generous
        "s_FAT12Infor (parse_bootsector image_cut_in_fat power_on)" power_on]
  unfolding image_cut_in_fat_def floppy_fields
  by (simp add: generous_def) (auto simp: floppy_boot_def power_on_def)

subsection \<open>Scanning a directory buffer\<close>

lemma dvd_step:
  "(i::nat) \<le> j \<Longrightarrow> i \<noteq> j \<Longrightarrow> 32 dvd (j - i) \<Longrightarrow> i + 32 \<le> j \<and> 32 dvd (j - (i + 32))"
proof -
  assume a: "i \<le> j" "i \<noteq> j" "32 dvd (j - i)"
  then obtain k where k: "j - i = 32 * k" by (auto simp: dvd_def)
  with a have "k \<noteq> 0" by auto
  then obtain k' where k': "k = Suc k'" by (cases k) auto
  have "j = i + 32 + 32 * k'" using k k' a by simp
  then show ?thesis by simp
qed

lemma scan_root_zero:
  "i < n \<Longrightarrow> i < length buff \<Longrightarrow> buff ! i = 0 \<Longrightarrow> scan_root A buff n i acc = Inr acc"
  by (subst scan_root.simps) simp

lemma scan_sub_zero:
  "i < n \<Longrightarrow> i < length buff \<Longrightarrow> buff ! i = 0 \<Longrightarrow> scan_sub A buff n c i acc = Inr acc"
  by (subst scan_sub.simps) simp

lemma decode_entry_cong:
  assumes "take (i + 32) b1 = take (i + 32) b2" "i + 32 \<le> length b1"
  shows "decode_entry b1 i = decode_entry b2 i"
proof -
  have n: "\<And>k. k < i + 32 \<Longrightarrow> b1 ! k = b2 ! k"
    using assms(1) by (metis nth_take)
  have "take 8 (drop i (take (i + 32) b1)) = take 8 (drop i b1)"
    by (simp add: drop_take min_def)
  moreover have "take 8 (drop i (take (i + 32) b2)) = take 8 (drop i b2)"
    by (simp add: drop_take min_def)
  ultimately have t8: "take 8 (drop i b1) = take 8 (drop i b2)" using assms(1) by simp
  have "take 3 (drop (i + 8) (take (i + 32) b1)) = take 3 (drop (i + 8) b1)"
    by (simp add: drop_take min_def)
  moreover have "take 3 (drop (i + 8) (take (i + 32) b2)) = take 3 (drop (i + 8) b2)"
    by (simp add: drop_take min_def)
  ultimately have t3: "take 3 (drop (i + 8) b1) = take 3 (drop (i + 8) b2)" using assms(1) by simp
  show ?thesis
    unfolding decode_entry_def using t8 t3 by (simp add: n)
qed

lemma take_agree:
  assumes "take k b1 = take k b2" "j \<le> k"
  shows "take j b1 = take j b2"
  using assms by (metis min.absorb1 take_take)

lemma take_agree_len:
  assumes "take k b1 = take k b2" "k \<le> length b1"
  shows "k \<le> length b2"
  using assms by (metis length_take min.absorb2 min.cobounded1)

lemma scan_root_prefix:
  assumes "take (Suc j) b1 = take (Suc j) b2" "j < length b1" "b1 ! j = 0" "j < n1" "j < n2"
  shows "i \<le> j \<Longrightarrow> 32 dvd (j - i) \<Longrightarrow> scan_root A b1 n1 i acc = scan_root A b2 n2 i acc"
proof (induction "j - i" arbitrary: i acc rule: less_induct)
  case less
  have l2: "j < length b2" using take_agree_len [OF assms(1)] assms(2) by simp
  have nth: "\<And>k. k \<le> j \<Longrightarrow> b1 ! k = b2 ! k"
    using assms(1) by (metis le_imp_less_Suc nth_take)
  show ?case
  proof (cases "i = j")
    case True
    then show ?thesis
      using assms l2 nth [of j] by (simp add: scan_root_zero)
  next
    case False
    with less.prems have lt: "i + 32 \<le> j" and d: "32 dvd (j - (i + 32))"
      using dvd_step [of i j] by simp_all
    have dec: "decode_entry b1 i = decode_entry b2 i"
      using lt assms(2) by (intro decode_entry_cong take_agree [OF assms(1)]) simp_all
    have IH: "\<And>acc. scan_root A b1 n1 (i + 32) acc = scan_root A b2 n2 (i + 32) acc"
      using less.hyps [of "i + 32"] lt d by simp
    show ?thesis
      using lt assms(2,4,5) l2 nth [of i] nth [of "i + 11"] dec IH
      by (subst scan_root.simps [of A b1 n1 i acc], subst scan_root.simps [of A b2 n2 i acc]) simp
  qed
qed

lemma scan_sub_prefix:
  assumes "take (Suc j) b1 = take (Suc j) b2" "j < length b1" "b1 ! j = 0" "j < n1" "j < n2"
  shows "i \<le> j \<Longrightarrow> 32 dvd (j - i) \<Longrightarrow> scan_sub A b1 n1 c i acc = scan_sub A b2 n2 c i acc"
proof (induction "j - i" arbitrary: i acc c rule: less_induct)
  case less
  have l2: "j < length b2" using take_agree_len [OF assms(1)] assms(2) by simp
  have nth: "\<And>k. k \<le> j \<Longrightarrow> b1 ! k = b2 ! k"
    using assms(1) by (metis le_imp_less_Suc nth_take)
  show ?case
  proof (cases "i = j")
    case True
    then show ?thesis
      using assms l2 nth [of j] by (simp add: scan_sub_zero)
  next
    case False
    with less.prems have lt: "i + 32 \<le> j" and d: "32 dvd (j - (i + 32))"
      using dvd_step [of i j] by simp_all
    have dec: "decode_entry b1 i = decode_entry b2 i"
      using lt assms(2) by (intro decode_entry_cong take_agree [OF assms(1)]) simp_all
    have IH: "\<And>acc c. scan_sub A b1 n1 c (i + 32) acc = scan_sub A b2 n2 c (i + 32) acc"
      using less.hyps [of "i + 32"] lt d by simp
    show ?thesis
      using lt assms(2,4,5) l2 nth [of i] nth [of "i + 11"] dec IH
      by (subst scan_sub.simps [of A b1 n1 c i acc], subst scan_sub.simps [of A b2 n2 c i acc]) simp
  qed
qed

text \<open>
  C7. In both scans a slot (at a multiple \<open>j\<close> of 32 below the byte count) whose first byte is 0
  ends the scan of the buffer: the scan started at that slot returns the list unchanged, and the
  scan of the whole buffer gives the same result for every buffer that agrees with it up to that
  byte, whatever follows. A buffer whose first byte is 0 gives the empty list.
\<close>

theorem scan_stops_at_zero_slot:
  assumes "32 dvd j" "j < n" "j < length buff" "buff ! j = 0"
    and "j < n'" "take (Suc j) buff' = take (Suc j) buff"
  shows "scan_root A buff n j acc = Inr acc
       \<and> scan_sub A buff n c j acc = Inr acc
       \<and> scan_root A buff' n' 0 acc = scan_root A buff n 0 acc
       \<and> scan_sub A buff' n' c 0 acc = scan_sub A buff n c 0 acc
       \<and> (j = 0 \<longrightarrow> scan_root A buff n 0 [] = Inr [] \<and> scan_sub A buff n c 0 [] = Inr [])"
proof -
  have z: "scan_root A buff n j acc = Inr acc" "scan_sub A buff n c j acc = Inr acc"
    using assms by (simp_all add: scan_root_zero scan_sub_zero)
  have z0: "j = 0 \<longrightarrow> scan_root A buff n 0 [] = Inr [] \<and> scan_sub A buff n c 0 [] = Inr []"
    using assms by (auto simp: scan_root_zero scan_sub_zero)
  have p: "scan_root A buff n 0 acc = scan_root A buff' n' 0 acc"
    using assms by (intro scan_root_prefix [where j = j]) simp_all
  have q: "scan_sub A buff n c 0 acc = scan_sub A buff' n' c 0 acc"
    using assms by (intro scan_sub_prefix [where j = j]) simp_all
  show ?thesis using z z0 p q by simp
qed

theorem scan_stops_at_zero_slot_witness:
  "scan_root generous dir_sample 96 32 [] = Inr []
   \<and> scan_sub generous dir_sample 96 9 32 [] = Inr []
   \<and> scan_root generous (take 33 dir_sample @ replicate 63 0) 96 0 []
       = scan_root generous dir_sample 96 0 []
   \<and> scan_sub generous (take 33 dir_sample @ replicate 63 0) 96 9 0 []
       = scan_sub generous dir_sample 96 9 0 []
   \<and> scan_root generous dir_sample 96 0 [] = Inr [decode_entry dir_sample 0]"
proof -
  have e: "scan_root generous dir_sample 96 0 [] = Inr [decode_entry dir_sample 0]"
    by (subst scan_root.simps, subst scan_root.simps)
       (simp add: dir_sample_def generous_def nth_append)
  show ?thesis
    using scan_stops_at_zero_slot [of 32 96 dir_sample 96
        "take 33 dir_sample @ replicate 63 0" generous "[]" 9] e
    by (simp add: dir_sample_def nth_append)
qed

lemma scan_sub_decoded:
  "scan_sub A buff n c i acc = Inr lst \<Longrightarrow>
   lst = acc @ map (decode_entry buff)
                 (filter (\<lambda>k. First_Logical_Cluster (decode_entry buff k) \<noteq> c)
                    (decoded_slots buff n i))"
proof (induction A buff n c i acc rule: scan_sub.induct)
  case (1 A buff n c i acc)
  show ?case
  proof (cases "i < n \<and> buff ! i \<noteq> 0")
    case False
    then have "lst = acc"
      using "1.prems" by (subst (asm) scan_sub.simps) (auto split: if_splits)
    moreover have "decoded_slots buff n i = []"
      using False by (subst decoded_slots.simps) auto
    ultimately show ?thesis by simp
  next
    case True
    then have inb: "\<not> length buff \<le> i" "\<not> length buff \<le> i + 11"
      using "1.prems" by (subst (asm) scan_sub.simps, auto split: if_splits)+
    show ?thesis
    proof (cases "buff ! (i + 11) \<noteq> 0x0F")
      case False
      then have r: "scan_sub A buff n c (i + 32) acc = Inr lst"
        using "1.prems" True inb by (subst (asm) scan_sub.simps) simp
      have d: "decoded_slots buff n i = decoded_slots buff n (i + 32)"
        using True False by (subst decoded_slots.simps) simp
      show ?thesis
        using "1.IH"(3) [OF _ _ _ _ _ r] True inb False d by simp
    next
      case attr: True
      then have inb2: "\<not> length buff < i + 32"
        using "1.prems" True inb by (subst (asm) scan_sub.simps) (auto split: if_splits)
      have d: "decoded_slots buff n i = i # decoded_slots buff n (i + 32)"
        using True attr by (subst decoded_slots.simps) simp
      show ?thesis
      proof (cases "c \<noteq> First_Logical_Cluster (decode_entry buff i)")
        case keep: True
        then have ok: "DirList_ok A"
          using "1.prems" True inb attr inb2 by (subst (asm) scan_sub.simps) (auto split: if_splits)
        have r: "scan_sub A buff n c (i + 32) (acc @ [decode_entry buff i]) = Inr lst"
          using "1.prems" True inb attr inb2 keep ok by (subst (asm) scan_sub.simps) simp
        show ?thesis
          using "1.IH"(1) [OF _ _ _ _ _ _ _ _ r] True inb attr inb2 keep ok d by auto
      next
        case drop: False
        have r: "scan_sub A buff n c (i + 32) acc = Inr lst"
          using "1.prems" True inb attr inb2 drop by (subst (asm) scan_sub.simps) simp
        show ?thesis
          using "1.IH"(2) [OF _ _ _ _ _ _ _ r] True inb attr inb2 drop d by auto
      qed
    qed
  qed
qed

subsection \<open>The sample volume, mounted\<close>

lemma mounted_floppy:
  assumes "4608 \<le> length rest"
  shows "s_fptr (mounted (floppy_boot @ rest)) = Some (floppy_boot @ rest)"
    and "s_sectorSize (mounted (floppy_boot @ rest)) = 512"
    and "s_FAT12Infor (mounted (floppy_boot @ rest))
           = \<lparr>bytes_per_sector = 512, sectors_per_cluster = 1, Number_of_FATs = 2,
              Maximum_number_of_root_directory_entries = 224, Total_sector_count = 2880,
              Sectors_per_FAT = 9\<rparr>"
    and "Cluster_starts_in_physical_of_the_data_area (mounted (floppy_boot @ rest)) = 33"
    and "s_fat_table (mounted (floppy_boot @ rest)) = Some (take 4608 rest)"
    and "reported (mounted (floppy_boot @ rest)) = []"
proof -
  let ?img = "floppy_boot @ rest"
  obtain m' where
    "fatfs_init generous (Some ?img) power_on = Inr (512, m')"
    "s_FAT12Infor m' = \<lparr>bytes_per_sector = 512, sectors_per_cluster = 1, Number_of_FATs = 2,
              Maximum_number_of_root_directory_entries = 224, Total_sector_count = 2880,
              Sectors_per_FAT = 9\<rparr>"
    "Cluster_starts_in_physical_of_the_data_area m' = 33"
    "s_fptr m' = Some ?img" "s_sectorSize m' = 512"
    "reported m' = []" "s_fat_table m' = Some (take 4608 rest)"
    using fatfs_init_mounted [of ?img generous
        "s_FAT12Infor (parse_bootsector ?img power_on)" power_on] assms
    unfolding floppy_fields
    by (simp add: generous_def) (auto simp: power_on_def)
  then show "s_fptr (mounted ?img) = Some ?img" "s_sectorSize (mounted ?img) = 512"
    "s_FAT12Infor (mounted ?img)
           = \<lparr>bytes_per_sector = 512, sectors_per_cluster = 1, Number_of_FATs = 2,
              Maximum_number_of_root_directory_entries = 224, Total_sector_count = 2880,
              Sectors_per_FAT = 9\<rparr>"
    "Cluster_starts_in_physical_of_the_data_area (mounted ?img) = 33"
    "s_fat_table (mounted ?img) = Some (take 4608 rest)"
    "reported (mounted ?img) = []"
    by (simp_all add: mounted_def)
qed

lemmas mounted_volume =
  mounted_floppy [of "volume_fat @ volume_fat @ volume_root @ volume_subdir
       @ replicate 512 0x61 @ replicate 512 0x62", folded floppy_volume_def, simplified]

lemmas mounted_without_data =
  mounted_floppy [of "volume_fat @ volume_fat @ volume_root", folded image_without_data_def,
    simplified]

lemma volume_fat_entries:
  "get_fat_entry_next (mounted floppy_volume) 2 = Inr 0xFFF"
  "get_fat_entry_next (mounted floppy_volume) 3 = Inr 4"
  "get_fat_entry_next (mounted floppy_volume) 4 = Inr 0xFFF"
  by (simp_all add: get_fat_entry_next_def mounted_volume volume_fat_def pack12_def nth_append)

lemma volume_clusters:
  "take 512 (drop 16896 floppy_volume) = volume_subdir"
  "take 512 (drop 17408 floppy_volume) = replicate 512 0x61"
  "take 512 (drop 17920 floppy_volume) = replicate 512 0x62"
  "drop 18432 floppy_volume = []"
  by (simp_all add: floppy_volume_def)

lemma volume_offsets:
  "cluster_offset (mounted floppy_volume) 2 = 16896"
  "cluster_offset (mounted floppy_volume) 3 = 17408"
  "cluster_offset (mounted floppy_volume) 4 = 17920"
  "cluster_offset (mounted floppy_volume) 0xFF8 = 2108928"
  "cluster_offset (mounted image_without_data) 2 = 16896"
  "cluster_offset (mounted image_without_data) 3 = 17408"
  by (simp_all add: cluster_offset_def mounted_volume mounted_without_data)

lemma kmc_read_multi_sector_null:
  "kmc_read_multi_sector m index num None =
     (case s_fptr m of
        None \<Rightarrow> Inl NullPointer
      | Some img \<Rightarrow>
          if take (unat (ucast (s_sectorSize m) * num :: u32)) (drop (unat index) img) = []
          then Inr (m\<lparr>io_log := io_log m
                        @ [(unat index, unat (ucast (s_sectorSize m) * num :: u32))]\<rparr>, 0, None)
          else Inl NullPointer)"
  by (simp add: kmc_read_multi_sector_def fseek_fread_def Let_def split: option.splits)

lemma kmc_read_multi_sector_InrD:
  assumes "kmc_read_multi_sector m index num (Some b) = Inr (m1, n, buff1)"
  shows "\<exists>img got. s_fptr m = Some img
           \<and> got = take (unat (ucast (s_sectorSize m) * num :: u32)) (drop (unat index) img)
           \<and> length got \<le> length b
           \<and> m1 = m\<lparr>io_log := io_log m @ [(unat index, unat (ucast (s_sectorSize m) * num :: u32))]\<rparr>
           \<and> n = of_nat (length got)
           \<and> buff1 = Some (got @ drop (length got) b)"
  using assms
  by (auto simp: kmc_read_multi_sector_def fseek_fread_def Let_def split: option.splits if_splits)

lemma kmc_read_multi_sector_state:
  assumes "kmc_read_multi_sector m index num buff = Inr (m1, n, buff1)"
  shows "m1 = m\<lparr>io_log := io_log m
                    @ [(unat index, unat (ucast (s_sectorSize m) * num :: u32))]\<rparr>"
  using assms
  by (auto simp: kmc_read_multi_sector_def fseek_fread_def Let_def split: option.splits if_splits)

lemma kmc_read_multi_sector_repeat:
  assumes "kmc_read_multi_sector m index num buff = Inr (m1, n, buff1)"
    and "s_fptr m' = s_fptr m" and "s_sectorSize m' = s_sectorSize m"
  shows "\<exists>m1' buff1'. kmc_read_multi_sector m' index num buff1 = Inr (m1', n, buff1')"
  using assms
  by (auto simp: kmc_read_multi_sector_def fseek_fread_def Let_def split: option.splits if_splits)

lemma kmc_read_multi_sector_again:
  assumes r: "kmc_read_multi_sector m index num (Some b) = Inr (m1, n, buff1)"
    and f: "s_fptr m' = s_fptr m" and s: "s_sectorSize m' = s_sectorSize m"
    and l: "length b' = length b"
  shows "\<exists>m1' b1'. kmc_read_multi_sector m' index num (Some b') = Inr (m1', n, Some b1')
           \<and> m1' = m'\<lparr>io_log := io_log m' @ [(unat index, unat (ucast (s_sectorSize m) * num :: u32))]\<rparr>
           \<and> length b1' = length b"
  using kmc_read_multi_sector_InrD [OF r] f s l
  by (auto simp: kmc_read_multi_sector_def fseek_fread_def Let_def)

lemma kmc_read_multi_sector_length:
  assumes r: "kmc_read_multi_sector m index num (Some b) = Inr (m1, n, buff1)"
  shows "\<exists>b1. buff1 = Some b1 \<and> length b1 = length b"
  using kmc_read_multi_sector_InrD [OF r] by auto

lemma read_fresh_buffer:
  assumes "s_fptr m = Some img" "s_sectorSize m = 512" "index < 4294967296"
  shows "kmc_read_multi_sector m (of_nat index) 1 (Some (replicate 512 0))
           = Inr (m\<lparr>io_log := io_log m @ [(index, 512)]\<rparr>,
                  of_nat (length (take 512 (drop index img))),
                  Some (take 512 (drop index img)
                          @ replicate (512 - length (take 512 (drop index img))) 0))"
  using assms
  by (simp add: kmc_read_multi_sector_def fseek_fread_def Let_def unat_of_nat)

lemma volume_reads:
  assumes "s_fptr m = Some floppy_volume" "s_sectorSize m = 512"
  shows "kmc_read_multi_sector m 16896 1 (Some (replicate 512 0))
           = Inr (m\<lparr>io_log := io_log m @ [(16896, 512)]\<rparr>, 512, Some volume_subdir)"
    and "kmc_read_multi_sector m 17408 1 (Some (replicate 512 0))
           = Inr (m\<lparr>io_log := io_log m @ [(17408, 512)]\<rparr>, 512, Some (replicate 512 0x61))"
    and "kmc_read_multi_sector m 17920 1 (Some (replicate 512 0))
           = Inr (m\<lparr>io_log := io_log m @ [(17920, 512)]\<rparr>, 512, Some (replicate 512 0x62))"
    and "kmc_read_multi_sector m 2108928 1 (Some (replicate 512 0))
           = Inr (m\<lparr>io_log := io_log m @ [(2108928, 512)]\<rparr>, 0, Some (replicate 512 0))"
  using read_fresh_buffer [OF assms, of 16896] read_fresh_buffer [OF assms, of 17408]
    read_fresh_buffer [OF assms, of 17920] read_fresh_buffer [OF assms, of 2108928]
  by (simp_all add: volume_clusters) (simp add: floppy_volume_def)

lemma without_data_reads:
  "kmc_read_multi_sector (mounted image_without_data) 16896 1 (Some (replicate 512 0))
     = Inr ((mounted image_without_data)
              \<lparr>io_log := io_log (mounted image_without_data) @ [(16896, 512)]\<rparr>,
            0, Some (replicate 512 0))"
  "kmc_read_multi_sector (mounted image_without_data) 17408 1 (Some (replicate 512 0))
     = Inr ((mounted image_without_data)
              \<lparr>io_log := io_log (mounted image_without_data) @ [(17408, 512)]\<rparr>,
            0, Some (replicate 512 0))"
  using read_fresh_buffer [of "mounted image_without_data" image_without_data 16896]
    read_fresh_buffer [of "mounted image_without_data" image_without_data 17408]
  by (simp_all add: mounted_without_data) (simp_all add: image_without_data_def)

lemma volume_subdir_scan:
  "scan_sub generous volume_subdir 512 2 0 []
     = Inr [decode_entry volume_subdir 32, decode_entry volume_subdir 64]"
  by (subst scan_sub.simps, subst scan_sub.simps, subst scan_sub.simps, subst scan_sub.simps)
     (simp add: volume_subdir_def dir_slot_def generous_def nth_append decode_entry_def le16_def)

lemma volume_subdir_slots: "decoded_slots volume_subdir 512 0 = [0, 32, 64]"
  by (subst decoded_slots.simps, subst decoded_slots.simps, subst decoded_slots.simps,
      subst decoded_slots.simps)
     (simp add: volume_subdir_def dir_slot_def nth_append)

subsection \<open>Walking cluster chains\<close>

lemma cluster_offset_cong:
  "s_FAT12Infor m' = s_FAT12Infor m \<Longrightarrow>
   Cluster_starts_in_physical_of_the_data_area m' = Cluster_starts_in_physical_of_the_data_area m \<Longrightarrow>
   cluster_offset m' c = cluster_offset m c"
  by (simp add: cluster_offset_def)

lemma dir_stuck_step:
  assumes "dir_stuck s"
  shows "\<exists>s'. read_dir_body A s = Inr s' \<and> dir_stuck s' \<and> fst (snd s') < 0xFF7"
proof -
  obtain m c buff acc where s: "s = (m, c, buff, acc)" by (cases s) auto
  from assms s obtain m1 n buff1 where c: "c < 0xFF7"
    and r: "kmc_read_multi_sector m (cluster_offset m c)
               (ucast (sectors_per_cluster (s_FAT12Infor m))) buff = Inr (m1, n, buff1)"
    and n: "n \<noteq> ucast (sectors_per_cluster (s_FAT12Infor m))
                  * ucast (bytes_per_sector (s_FAT12Infor m))"
    by (auto simp: dir_stuck_def split: sum.splits)
  note m1 = kmc_read_multi_sector_state [OF r]
  define m2 where "m2 = error_callback ERROR_READING_SUB_DIRECTORY m1"
  have body: "read_dir_body A s = Inr (m2, c, buff1, acc)"
    using r n by (simp add: read_dir_body_def s Let_def m2_def)
  have same: "s_fptr m2 = s_fptr m" "s_sectorSize m2 = s_sectorSize m"
      "s_FAT12Infor m2 = s_FAT12Infor m"
      "Cluster_starts_in_physical_of_the_data_area m2 = Cluster_starts_in_physical_of_the_data_area m"
    by (simp_all add: m2_def m1 error_callback_def)
  obtain m1' buff1' where "kmc_read_multi_sector m2 (cluster_offset m c)
               (ucast (sectors_per_cluster (s_FAT12Infor m))) buff1 = Inr (m1', n, buff1')"
    using kmc_read_multi_sector_repeat [OF r same(1,2)] by blast
  then have "dir_stuck (m2, c, buff1, acc)"
    using c n same by (auto simp: dir_stuck_def cluster_offset_cong [of m2 m])
  with body c show ?thesis by auto
qed

lemma read_dir_loop_stuck:
  assumes "dir_stuck s"
  shows "read_dir_loop A s = None"
proof (rule ccontr)
  assume "read_dir_loop A s \<noteq> None"
  then obtain y where y: "read_dir_loop A s = Some y" by auto
  have "\<not> dir_stuck s"
  proof (rule read_dir_loop.raw_induct [where P = "\<lambda>A s y. \<not> dir_stuck s", OF _ y])
    fix loop A0 s0 y0
    assume IH: "\<And>A s y. loop A s = Some y \<Longrightarrow> \<not> dir_stuck s"
      and eq: "(case read_dir_body A0 s0 of Inl f \<Rightarrow> Some (Inl f)
                | Inr s' \<Rightarrow> if fst (snd s') < 0xFF7 then loop A0 s' else Some (Inr s')) = Some y0"
    show "\<not> dir_stuck s0"
    proof
      assume st: "dir_stuck s0"
      obtain s1 where b: "read_dir_body A0 s0 = Inr s1" and st': "dir_stuck s1"
        and lt: "fst (snd s1) < 0xFF7"
        using dir_stuck_step [OF st] by blast
      from eq have "loop A0 s1 = Some y0" using b lt by simp
      from IH [OF this] st' show False by simp
    qed
  qed
  with assms show False by simp
qed

lemma read_dir_loop_unfold:
  "read_dir_body A s = Inr s' \<Longrightarrow>
   read_dir_loop A s = (if fst (snd s') < 0xFF7 then read_dir_loop A s' else Some (Inr s'))"
  by (subst read_dir_loop.simps) simp

lemma read_dir_loop_fault:
  "read_dir_body A s = Inl f \<Longrightarrow> read_dir_loop A s = Some (Inl f)"
  by (subst read_dir_loop.simps) simp

text \<open>
  After a full pass \<open>buff\<close> is null (line 449 of FATfs.c). The pass that follows faults when
  its read delivers bytes; when it delivers nothing the pass keeps the null buffer and adds
  nothing to the list.
\<close>

lemma scan_sub_nothing: "scan_sub A buff 0 c i acc = Inr acc"
  by (subst scan_sub.simps) simp

lemma read_dir_body_null:
  assumes "read_dir_body A (m, c, None, acc) = Inr (m1, c1, buff1, acc1)"
  shows "buff1 = None \<and> acc1 = acc"
  using assms
  by (auto simp: read_dir_body_def Let_def kmc_read_multi_sector_null scan_sub_nothing
           split: option.splits if_splits sum.splits)

lemma read_dir_body_null_delivered:
  assumes "s_fptr m = Some img"
    and "take (unat (ucast (s_sectorSize m)
                       * ucast (sectors_per_cluster (s_FAT12Infor m)) :: u32))
           (drop (unat (cluster_offset m c)) img) \<noteq> []"
  shows "read_dir_body A (m, c, None, acc) = Inl NullPointer"
  using assms by (simp add: read_dir_body_def Let_def kmc_read_multi_sector_null)

lemma read_dir_loop_null:
  assumes ret: "read_dir_loop A s = Some (Inr (m', c', buff', acc'))"
    and nul: "fst (snd (snd s)) = None"
  shows "acc' = snd (snd (snd s))"
proof -
  have "fst (snd (snd s)) = None \<longrightarrow>
          (\<forall>m' c' buff' acc'. y = Inr (m', c', buff', acc') \<longrightarrow> acc' = snd (snd (snd s)))"
    if "read_dir_loop A s = Some y" for y
  proof (rule read_dir_loop.raw_induct [where P = "\<lambda>A s y. fst (snd (snd s)) = None \<longrightarrow>
          (\<forall>m' c' buff' acc'. y = Inr (m', c', buff', acc') \<longrightarrow> acc' = snd (snd (snd s)))", OF _ that])
    fix loop A0 s0 y0
    assume IH: "\<And>A s y. loop A s = Some y \<Longrightarrow> fst (snd (snd s)) = None \<longrightarrow>
          (\<forall>m' c' buff' acc'. y = Inr (m', c', buff', acc') \<longrightarrow> acc' = snd (snd (snd s)))"
      and eq: "(case read_dir_body A0 s0 of Inl f \<Rightarrow> Some (Inl f)
                | Inr s' \<Rightarrow> if fst (snd s') < 0xFF7 then loop A0 s' else Some (Inr s')) = Some y0"
    show "fst (snd (snd s0)) = None \<longrightarrow>
          (\<forall>m' c' buff' acc'. y0 = Inr (m', c', buff', acc') \<longrightarrow> acc' = snd (snd (snd s0)))"
    proof (intro impI allI)
      fix m' c' buff' acc'
      assume n0: "fst (snd (snd s0)) = None" and y0: "y0 = Inr (m', c', buff', acc')"
      obtain m c acc where s0: "s0 = (m, c, None, acc)" using n0 by (cases s0) auto
      from eq y0 obtain s1 where b: "read_dir_body A0 s0 = Inr s1"
        by (cases "read_dir_body A0 s0") auto
      obtain m1 c1 buff1 acc1 where s1: "s1 = (m1, c1, buff1, acc1)" by (cases s1) auto
      from read_dir_body_null [of A0 m c acc m1 c1 buff1 acc1] b
      have k: "buff1 = None" "acc1 = acc" by (auto simp: s0 s1)
      show "acc' = snd (snd (snd s0))"
      proof (cases "c1 < 0xFF7")
        case True
        with eq b have "loop A0 s1 = Some y0" by (simp add: s1)
        from IH [OF this] y0 k show ?thesis by (simp add: s0 s1)
      next
        case False
        with eq b y0 k show ?thesis by (auto simp: s0 s1)
      qed
    qed
  qed
  from this [OF ret] nul show ?thesis by simp
qed

text \<open>The subdirectory loop started on a fresh buffer, its first pass unfolded.\<close>

lemma read_dir_loop_first:
  assumes r: "kmc_read_multi_sector m (cluster_offset m c)
                (ucast (sectors_per_cluster (s_FAT12Infor m))) (Some b) = Inr (m1, n, buff1)"
  shows "read_dir_loop A (m, c, Some b, acc) =
     (if n = ucast (sectors_per_cluster (s_FAT12Infor m)) * ucast (bytes_per_sector (s_FAT12Infor m))
      then (case scan_sub A (the buff1) (unat n) c 0 acc of
              Inl f \<Rightarrow> Some (Inl f)
            | Inr acc1 \<Rightarrow>
                (case get_fat_entry_next m1 c of
                   Inl f \<Rightarrow> Some (Inl f)
                 | Inr nxt \<Rightarrow>
                     if nxt < 0xFF7 then read_dir_loop A (m1, nxt, None, acc1)
                     else Some (Inr (m1, nxt, None, acc1))))
      else if c < 0xFF7 then None
           else Some (Inr (error_callback ERROR_READING_SUB_DIRECTORY m1, c, buff1, acc)))"
proof (cases "n = ucast (sectors_per_cluster (s_FAT12Infor m)) * ucast (bytes_per_sector (s_FAT12Infor m))")
  case full: True
  show ?thesis
  proof (cases "scan_sub A (the buff1) (unat n) c 0 acc")
    case (Inl f)
    then have "read_dir_body A (m, c, Some b, acc) = Inl f"
      using r full by (simp add: read_dir_body_def Let_def)
    then show ?thesis using full Inl by (simp add: read_dir_loop_fault)
  next
    case scan: (Inr acc1)
    show ?thesis
    proof (cases "get_fat_entry_next m1 c")
      case (Inl f)
      then have "read_dir_body A (m, c, Some b, acc) = Inl f"
        using r full scan by (simp add: read_dir_body_def Let_def)
      then show ?thesis using full scan Inl by (simp add: read_dir_loop_fault)
    next
      case (Inr nxt)
      then have "read_dir_body A (m, c, Some b, acc) = Inr (m1, nxt, None, acc1)"
        using r full scan by (simp add: read_dir_body_def Let_def)
      from read_dir_loop_unfold [OF this] show ?thesis
        using full scan Inr by simp
    qed
  qed
next
  case short: False
  then have body: "read_dir_body A (m, c, Some b, acc)
                     = Inr (error_callback ERROR_READING_SUB_DIRECTORY m1, c, buff1, acc)"
    using r by (simp add: read_dir_body_def Let_def)
  show ?thesis
  proof (cases "c < 0xFF7")
    case True
    then have "dir_stuck (m, c, Some b, acc)"
      using r short by (auto simp: dir_stuck_def)
    then show ?thesis using short True by (simp add: read_dir_loop_stuck)
  next
    case False
    then show ?thesis using read_dir_loop_unfold [OF body] short by simp
  qed
qed

lemma fatfs_read_dir_sub:
  assumes "c \<noteq> 0"
    and "sz = unat (ucast (sectors_per_cluster (s_FAT12Infor m))
                        * ucast (bytes_per_sector (s_FAT12Infor m)) :: u32)"
  shows "fatfs_read_dir A m c =
     (if calloc_ok A sz then
        (case kmc_read_multi_sector m (cluster_offset m c)
                (ucast (sectors_per_cluster (s_FAT12Infor m))) (Some (replicate sz 0)) of
           Inl f \<Rightarrow> Some (Inl f)
         | Inr (m1, n, buff1) \<Rightarrow>
             if n = ucast (sectors_per_cluster (s_FAT12Infor m))
                      * ucast (bytes_per_sector (s_FAT12Infor m))
             then (case scan_sub A (the buff1) (unat n) c 0 [] of
                     Inl f \<Rightarrow> Some (Inl f)
                   | Inr acc1 \<Rightarrow>
                       (case get_fat_entry_next m1 c of
                          Inl f \<Rightarrow> Some (Inl f)
                        | Inr nxt \<Rightarrow>
                            if nxt < 0xFF7
                            then (case read_dir_loop A (m1, nxt, None, acc1) of
                                    None \<Rightarrow> None
                                  | Some (Inl f) \<Rightarrow> Some (Inl f)
                                  | Some (Inr (m2, c2, buff2, head)) \<Rightarrow> Some (Inr (head, m2)))
                            else Some (Inr (acc1, m1))))
             else if c < 0xFF7 then None
                  else Some (Inr ([], error_callback ERROR_READING_SUB_DIRECTORY m1)))
      else Some (Inr ([], error_callback DYNAMIC_ALLOCATON_ERROR m)))"
proof (cases "calloc_ok A sz")
  case False
  then show ?thesis using assms by (simp add: fatfs_read_dir_def Let_def)
next
  case ok: True
  show ?thesis
  proof (cases "kmc_read_multi_sector m (cluster_offset m c)
                (ucast (sectors_per_cluster (s_FAT12Infor m))) (Some (replicate sz 0))")
    case (Inl f)
    then have "read_dir_body A (m, c, Some (replicate sz 0), []) = Inl f"
      by (simp add: read_dir_body_def Let_def)
    then show ?thesis
      using assms ok Inl by (simp add: fatfs_read_dir_def Let_def read_dir_loop_fault)
  next
    case (Inr t)
    obtain m1 n buff1 where t: "t = (m1, n, buff1)" by (cases t) auto
    show ?thesis
      using assms ok Inr t read_dir_loop_first [of m c "replicate sz 0" m1 n buff1 A "[]"]
      by (simp add: fatfs_read_dir_def Let_def split: sum.splits)
  qed
qed

lemma file_stuck_step:
  assumes "file_stuck A s"
  shows "\<exists>s'. read_file_body A s = Inr s' \<and> file_stuck A s' \<and> fst (snd s') < 0xFF7"
proof -
  obtain m c acc where s: "s = (m, c, acc)" by (cases s) auto
  define sz where "sz = unat (ucast (sectors_per_cluster (s_FAT12Infor m))
                          * ucast (bytes_per_sector (s_FAT12Infor m)) :: u32)"
  from assms have c: "c < 0xFF7" by (simp add: file_stuck_def s)
  show ?thesis
  proof (cases "calloc_ok A sz")
    case False
    then have "read_file_body A s = Inr (error_callback DYNAMIC_ALLOCATON_ERROR m, c, acc)"
      by (simp add: read_file_body_def s Let_def sz_def)
    moreover have "file_stuck A (error_callback DYNAMIC_ALLOCATON_ERROR m, c, acc)"
      using False c by (simp add: file_stuck_def Let_def sz_def error_callback_def)
    ultimately show ?thesis using c by simp
  next
    case True
    with assms obtain m1 n buff1 where
      r: "kmc_read_multi_sector m (cluster_offset m c)
            (ucast (sectors_per_cluster (s_FAT12Infor m))) (Some (replicate sz 0))
            = Inr (m1, n, buff1)"
      and n: "n \<noteq> ucast (bytes_per_sector (s_FAT12Infor m))
                  * ucast (sectors_per_cluster (s_FAT12Infor m))"
      by (auto simp: file_stuck_def s Let_def sz_def split: sum.splits)
    have body: "read_file_body A s = Inr (m1, c, acc)"
      using True r n by (simp add: read_file_body_def s Let_def sz_def)
    have m1: "m1 = m\<lparr>io_log := io_log m @ [(unat (cluster_offset m c),
               unat (ucast (s_sectorSize m) * ucast (sectors_per_cluster (s_FAT12Infor m)) :: u32))]\<rparr>"
      using kmc_read_multi_sector_InrD [OF r] by auto
    have same: "s_fptr m1 = s_fptr m" "s_sectorSize m1 = s_sectorSize m"
      "s_FAT12Infor m1 = s_FAT12Infor m"
      "Cluster_starts_in_physical_of_the_data_area m1 = Cluster_starts_in_physical_of_the_data_area m"
      by (simp_all add: m1)
    obtain m1' b1' where "kmc_read_multi_sector m1 (cluster_offset m c)
               (ucast (sectors_per_cluster (s_FAT12Infor m))) (Some (replicate sz 0))
                = Inr (m1', n, Some b1')"
      using kmc_read_multi_sector_again [OF r same(1,2), of "replicate sz 0"] by auto
    then have "file_stuck A (m1, c, acc)"
      using c n same by (auto simp: file_stuck_def Let_def sz_def cluster_offset_cong [of m1 m])
    with body c show ?thesis by auto
  qed
qed

lemma read_file_loop_stuck:
  assumes "file_stuck A s"
  shows "read_file_loop A s = None"
proof (rule ccontr)
  assume "read_file_loop A s \<noteq> None"
  then obtain y where y: "read_file_loop A s = Some y" by auto
  have "\<not> file_stuck A s"
  proof (rule read_file_loop.raw_induct [where P = "\<lambda>A s y. \<not> file_stuck A s", OF _ y])
    fix loop A0 s0 y0
    assume IH: "\<And>A s y. loop A s = Some y \<Longrightarrow> \<not> file_stuck A s"
      and eq: "(case read_file_body A0 s0 of Inl f \<Rightarrow> Some (Inl f)
                | Inr s' \<Rightarrow> if fst (snd s') < 0xFF7 then loop A0 s' else Some (Inr s')) = Some y0"
    show "\<not> file_stuck A0 s0"
    proof
      assume st: "file_stuck A0 s0"
      obtain s1 where b: "read_file_body A0 s0 = Inr s1" and st': "file_stuck A0 s1"
        and lt: "fst (snd s1) < 0xFF7"
        using file_stuck_step [OF st] by blast
      from eq have "loop A0 s1 = Some y0" using b lt by simp
      from IH [OF this] st' show False by simp
    qed
  qed
  with assms show False by simp
qed

lemma read_file_loop_unfold:
  "read_file_body A s = Inr s' \<Longrightarrow>
   read_file_loop A s = (if fst (snd s') < 0xFF7 then read_file_loop A s' else Some (Inr s'))"
  by (subst read_file_loop.simps) simp

lemma read_file_loop_fault:
  "read_file_body A s = Inl f \<Longrightarrow> read_file_loop A s = Some (Inl f)"
  by (subst read_file_loop.simps) simp

lemma read_file_body_grows:
  assumes "read_file_body A (m, c, acc) = Inr (m1, c1, acc1)"
  shows "(\<exists>more. io_log m1 = io_log m @ more) \<and> (\<exists>more. acc1 = acc @ more)"
  using assms
  by (auto simp: read_file_body_def Let_def error_callback_def
           split: if_splits sum.splits dest!: kmc_read_multi_sector_InrD)

lemma read_file_loop_grows:
  assumes "read_file_loop A s = Some (Inr (m', c', lst))"
  shows "(\<exists>more. io_log m' = io_log (fst s) @ more) \<and> (\<exists>more. lst = snd (snd s) @ more)"
proof -
  have "\<forall>m' c' lst. Inr (m', c', lst) = y \<longrightarrow>
          (\<exists>more. io_log m' = io_log (fst s) @ more) \<and> (\<exists>more. lst = snd (snd s) @ more)"
    if "read_file_loop A s = Some y" for y
  proof (rule read_file_loop.raw_induct [where P = "\<lambda>A s y. \<forall>m' c' lst. Inr (m', c', lst) = y \<longrightarrow>
          (\<exists>more. io_log m' = io_log (fst s) @ more) \<and> (\<exists>more. lst = snd (snd s) @ more)", OF _ that])
    fix loop A0 s0 y0
    assume IH: "\<And>A s y. loop A s = Some y \<Longrightarrow> \<forall>m' c' lst. Inr (m', c', lst) = y \<longrightarrow>
          (\<exists>more. io_log m' = io_log (fst s) @ more) \<and> (\<exists>more. lst = snd (snd s) @ more)"
      and eq: "(case read_file_body A0 s0 of Inl f \<Rightarrow> Some (Inl f)
                | Inr s' \<Rightarrow> if fst (snd s') < 0xFF7 then loop A0 s' else Some (Inr s')) = Some y0"
    show "\<forall>m' c' lst. Inr (m', c', lst) = y0 \<longrightarrow>
          (\<exists>more. io_log m' = io_log (fst s0) @ more) \<and> (\<exists>more. lst = snd (snd s0) @ more)"
    proof (intro allI impI)
      fix m' c' lst assume y0: "Inr (m', c', lst) = y0"
      obtain m c acc where s0: "s0 = (m, c, acc)" by (cases s0) auto
      from eq y0 obtain s1 where b: "read_file_body A0 s0 = Inr s1"
        by (cases "read_file_body A0 s0") auto
      obtain m1 c1 acc1 where s1: "s1 = (m1, c1, acc1)" by (cases s1) auto
      from read_file_body_grows [of A0 m c acc m1 c1 acc1] b
      obtain l1 a1 where g: "io_log m1 = io_log m @ l1" "acc1 = acc @ a1"
        by (auto simp: s0 s1)
      show "(\<exists>more. io_log m' = io_log (fst s0) @ more) \<and> (\<exists>more. lst = snd (snd s0) @ more)"
      proof (cases "c1 < 0xFF7")
        case True
        with eq b have "loop A0 s1 = Some y0" by (simp add: s1)
        from IH [OF this] y0 g show ?thesis by (auto simp: s0 s1)
      next
        case False
        with eq b y0 have "m' = m1" "lst = acc1" by (auto simp: s1)
        with g show ?thesis by (simp add: s0)
      qed
    qed
  qed
  from this [OF assms] show ?thesis by simp
qed

text \<open>
  In both walks, when a pass of the loop has read its cluster in full and obtained the value
  \<open>v\<close> from the FAT: if \<open>v\<close> is \<open>0xFF7\<close> or more (it is at most \<open>0xFFF\<close>) the loop ends with the
  state of that pass, whose log holds one read more than before the pass, so no cluster is read
  after it; if \<open>v\<close> is below \<open>0xFF7\<close> the loop goes on with a pass for cluster \<open>v\<close>.
\<close>

lemma chain_walk_passes:
  assumes fat: "get_fat_entry_next m1 c = Inr v"
  shows "(calloc_ok A (unat (ucast (sectors_per_cluster (s_FAT12Infor m))
                               * ucast (bytes_per_sector (s_FAT12Infor m)) :: u32))
          \<and> kmc_read_multi_sector m (cluster_offset m c)
               (ucast (sectors_per_cluster (s_FAT12Infor m)))
               (Some (replicate (unat (ucast (sectors_per_cluster (s_FAT12Infor m))
                               * ucast (bytes_per_sector (s_FAT12Infor m)) :: u32)) 0))
               = Inr (m1, n, buff)
          \<and> n = ucast (bytes_per_sector (s_FAT12Infor m))
                  * ucast (sectors_per_cluster (s_FAT12Infor m))
          \<and> ClusterList_ok A
          \<longrightarrow> (0xFF7 \<le> v \<longrightarrow> v \<le> 0xFFF
                  \<and> read_file_loop A (m, c, acc) = Some (Inr (m1, v, acc @ [the buff]))
                  \<and> fatfs_read_file A m c = Some (Inr ([the buff], m1))
                  \<and> length (io_log m1) = Suc (length (io_log m)))
              \<and> (v < 0xFF7 \<longrightarrow>
                    read_file_loop A (m, c, acc) = read_file_loop A (m1, v, acc @ [the buff])))
       \<and> (kmc_read_multi_sector m (cluster_offset m c)
               (ucast (sectors_per_cluster (s_FAT12Infor m))) (Some b) = Inr (m1, n, buff)
          \<and> n = ucast (sectors_per_cluster (s_FAT12Infor m))
                  * ucast (bytes_per_sector (s_FAT12Infor m))
          \<and> scan_sub A (the buff) (unat n) c 0 dacc = Inr dacc1
          \<longrightarrow> (0xFF7 \<le> v \<longrightarrow> v \<le> 0xFFF
                  \<and> read_dir_loop A (m, c, Some b, dacc) = Some (Inr (m1, v, None, dacc1))
                  \<and> length (io_log m1) = Suc (length (io_log m)))
              \<and> (v < 0xFF7 \<longrightarrow>
                    read_dir_loop A (m, c, Some b, dacc) = read_dir_loop A (m1, v, None, dacc1)))"
proof (intro conjI impI; (elim conjE)?)
  let ?sz = "unat (ucast (sectors_per_cluster (s_FAT12Infor m))
                               * ucast (bytes_per_sector (s_FAT12Infor m)) :: u32)"
  assume f: "calloc_ok A ?sz" "kmc_read_multi_sector m (cluster_offset m c)
               (ucast (sectors_per_cluster (s_FAT12Infor m))) (Some (replicate ?sz 0))
               = Inr (m1, n, buff)"
      "n = ucast (bytes_per_sector (s_FAT12Infor m)) * ucast (sectors_per_cluster (s_FAT12Infor m))"
      "ClusterList_ok A"
  have body: "\<And>acc. read_file_body A (m, c, acc) = Inr (m1, v, acc @ [the buff])"
    using f fat by (simp add: read_file_body_def Let_def)
  have log: "length (io_log m1) = Suc (length (io_log m))"
    using kmc_read_multi_sector_InrD [OF f(2)] by auto
  { assume v: "0xFF7 \<le> v"
    show "v \<le> 0xFFF" using fat by (rule get_fat_entry_next_le)
    show "read_file_loop A (m, c, acc) = Some (Inr (m1, v, acc @ [the buff]))"
      using read_file_loop_unfold [OF body] v by (simp add: not_less [symmetric])
    show "fatfs_read_file A m c = Some (Inr ([the buff], m1))"
      using read_file_loop_unfold [OF body [of "[]"]] v
      by (simp add: fatfs_read_file_def not_less [symmetric])
    show "length (io_log m1) = Suc (length (io_log m))" by (rule log) }
  { assume v: "v < 0xFF7"
    show "read_file_loop A (m, c, acc) = read_file_loop A (m1, v, acc @ [the buff])"
      using read_file_loop_unfold [OF body] v by simp }
next
  assume d: "kmc_read_multi_sector m (cluster_offset m c)
               (ucast (sectors_per_cluster (s_FAT12Infor m))) (Some b) = Inr (m1, n, buff)"
     "n = ucast (sectors_per_cluster (s_FAT12Infor m)) * ucast (bytes_per_sector (s_FAT12Infor m))"
     "scan_sub A (the buff) (unat n) c 0 dacc = Inr dacc1"
  have body: "read_dir_body A (m, c, Some b, dacc) = Inr (m1, v, None, dacc1)"
    using d fat by (simp add: read_dir_body_def Let_def)
  have log: "length (io_log m1) = Suc (length (io_log m))"
    using kmc_read_multi_sector_InrD [OF d(1)] by auto
  { assume v: "0xFF7 \<le> v"
    show "v \<le> 0xFFF" using fat by (rule get_fat_entry_next_le)
    show "read_dir_loop A (m, c, Some b, dacc) = Some (Inr (m1, v, None, dacc1))"
      using read_dir_loop_unfold [OF body] v by (simp add: not_less [symmetric])
    show "length (io_log m1) = Suc (length (io_log m))" by (rule log) }
  { assume v: "v < 0xFF7"
    show "read_dir_loop A (m, c, Some b, dacc) = read_dir_loop A (m1, v, None, dacc1)"
      using read_dir_loop_unfold [OF body] v by simp }
qed

text \<open>
  On the sample volume the file at cluster 3 is read as its two clusters 3 and 4, and the
  subdirectory loop at cluster 2 ends after its one cluster.
\<close>

lemma chain_walk_sample:
  "fatfs_read_file generous (mounted floppy_volume) 3
     = Some (Inr ([replicate 512 0x61, replicate 512 0x62],
                  (mounted floppy_volume)
                    \<lparr>io_log := io_log (mounted floppy_volume) @ [(17408, 512), (17920, 512)]\<rparr>))
   \<and> read_dir_loop generous (mounted floppy_volume, 2, Some (replicate 512 0), [])
     = Some (Inr ((mounted floppy_volume)
                    \<lparr>io_log := io_log (mounted floppy_volume) @ [(16896, 512)]\<rparr>,
                  0xFFF, None, [decode_entry volume_subdir 32, decode_entry volume_subdir 64]))"
proof -
  define M where "M = mounted floppy_volume"
  define M1 where "M1 = M\<lparr>io_log := io_log M @ [(17408, 512)]\<rparr>"
  define M2 where "M2 = M1\<lparr>io_log := io_log M1 @ [(17920, 512)]\<rparr>"
  define D1 where "D1 = M\<lparr>io_log := io_log M @ [(16896, 512)]\<rparr>"
  note facts = mounted_volume [folded M_def] volume_offsets [folded M_def]
  have same: "s_fat_table M1 = s_fat_table M" "s_fat_table M2 = s_fat_table M"
      "s_fat_table D1 = s_fat_table M" "s_FAT12Infor M1 = s_FAT12Infor M"
      "s_fptr M1 = Some floppy_volume" "s_sectorSize M1 = 512"
      "cluster_offset M1 4 = 17920"
    by (simp_all add: M1_def M2_def D1_def facts cluster_offset_def)
  have fat: "get_fat_entry_next M1 3 = Inr 4" "get_fat_entry_next M2 4 = Inr 0xFFF"
      "get_fat_entry_next D1 2 = Inr 0xFFF"
    using volume_fat_entries [folded M_def]
    by (simp_all add: get_fat_entry_next_def same)
  have r3: "kmc_read_multi_sector M (cluster_offset M 3) 1 (Some (replicate 512 0))
              = Inr (M1, 512, Some (replicate 512 0x61))"
    unfolding M1_def by (simp add: facts volume_reads)
  have r4: "kmc_read_multi_sector M1 (cluster_offset M1 4) 1 (Some (replicate 512 0))
              = Inr (M2, 512, Some (replicate 512 0x62))"
    unfolding M2_def by (simp add: same volume_reads)
  have r2: "kmc_read_multi_sector M (cluster_offset M 2) 1 (Some (replicate 512 0))
              = Inr (D1, 512, Some volume_subdir)"
    unfolding D1_def by (simp add: facts volume_reads)
  have step3: "read_file_loop generous (M, 3, []) = read_file_loop generous (M1, 4, [replicate 512 0x61])"
    using chain_walk_passes [OF fat(1), of generous M 512 "Some (replicate 512 0x61)" "[]"] r3
    by (simp add: facts generous_def)
  have step4: "read_file_loop generous (M1, 4, [replicate 512 0x61])
                 = Some (Inr (M2, 0xFFF, [replicate 512 0x61, replicate 512 0x62]))"
    using chain_walk_passes [OF fat(2), of generous M1 512 "Some (replicate 512 0x62)"
        "[replicate 512 0x61]"] r4
    by (simp add: same facts generous_def)
  have dir: "read_dir_loop generous (M, 2, Some (replicate 512 0), [])
               = Some (Inr (D1, 0xFFF, None,
                         [decode_entry volume_subdir 32, decode_entry volume_subdir 64]))"
    using chain_walk_passes [OF fat(3), of generous M 512 "Some volume_subdir" "[]"
        "replicate 512 0" "[]" "[decode_entry volume_subdir 32, decode_entry volume_subdir 64]"] r2
    by (simp add: facts volume_subdir_scan)
  show ?thesis
    using step3 step4 dir
    by (simp add: fatfs_read_file_def M_def [symmetric] M2_def M1_def D1_def)
qed

lemma length_long_dir [simp]:
  "length long_dir_fat = 4608" "length long_dir_first = 512" "length long_dir_second = 512"
  by (simp_all add: long_dir_fat_def long_dir_first_def long_dir_second_def dir_slot_def pack12_def)

lemmas mounted_long_dir =
  mounted_floppy [of "long_dir_fat @ long_dir_fat @ volume_root @ long_dir_first @ long_dir_second",
    folded long_dir_volume_def, simplified]

lemma scan_sub_returns:
  assumes "DirList_ok A" "32 dvd n" "n \<le> length buff"
  shows "32 dvd i \<Longrightarrow> \<exists>lst. scan_sub A buff n c i acc = Inr lst"
proof (induction "n - i" arbitrary: i acc rule: less_induct)
  case less
  show ?case
  proof (cases "i < n")
    case False
    then show ?thesis by (subst scan_sub.simps) simp
  next
    case True
    with assms(2) less.prems have le: "i + 32 \<le> n" by (auto simp: dvd_def)
    have d: "32 dvd (i + 32)" using less.prems by simp
    have IH: "\<And>acc. \<exists>lst. scan_sub A buff n c (i + 32) acc = Inr lst"
      using less.hyps [of "i + 32"] True d by simp
    show ?thesis
      using True le assms(1,3) IH
      by (subst scan_sub.simps) auto
  qed
qed

text \<open>
  C3 at a failing input: a subdirectory of two clusters. The FAT entry of cluster 2 is 3, below
  \<open>0xFF7\<close>, and the loop starts a pass for cluster 3; but the first pass has left \<open>buff\<close> null,
  the read for cluster 3 hands \<open>fread\<close> that null pointer, and no listing is returned.
\<close>

theorem fatfs_read_dir_second_pass:
  "fatfs_read_dir generous (mounted long_dir_volume) 2 = Some (Inl NullPointer)"
proof -
  define M where "M = mounted long_dir_volume"
  define M1 where "M1 = M\<lparr>io_log := io_log M @ [(16896, 512)]\<rparr>"
  note facts = mounted_long_dir [folded M_def]
  have off: "cluster_offset M 2 = 16896" by (simp add: cluster_offset_def facts)
  have r: "kmc_read_multi_sector M (cluster_offset M 2) 1 (Some (replicate 512 0))
             = Inr (M1, 512, Some long_dir_first)"
    using read_fresh_buffer [of M long_dir_volume 16896]
    unfolding off M1_def by (simp add: facts) (simp add: long_dir_volume_def)
  have fat: "get_fat_entry_next M1 2 = Inr 3"
    by (simp add: get_fat_entry_next_def M1_def facts long_dir_fat_def pack12_def nth_append)
  obtain lst where sc: "scan_sub generous long_dir_first 512 2 0 [] = Inr lst"
    using scan_sub_returns [of generous 512 long_dir_first 0 2 "[]"] by (auto simp: generous_def)
  have third: "take 512 (drop 17408 long_dir_volume) = long_dir_second"
    by (simp add: long_dir_volume_def)
  have "long_dir_second \<noteq> []" by (simp add: long_dir_second_def dir_slot_def)
  then have "read_dir_body generous (M1, 3, None, lst) = Inl NullPointer"
    by (intro read_dir_body_null_delivered [where img = long_dir_volume])
       (simp_all add: M1_def facts cluster_offset_def third)
  then have "read_dir_loop generous (M1, 3, None, lst) = Some (Inl NullPointer)"
    by (rule read_dir_loop_fault)
  then show ?thesis
    using fatfs_read_dir_sub [of 2 512 M generous] r fat sc
    by (simp add: facts generous_def M_def [symmetric])
qed

lemma fatfs_read_dir_short_read:
  assumes sub: "c \<noteq> 0" and lt: "c < 0xFF7"
    and ok: "calloc_ok A (unat (ucast (sectors_per_cluster (s_FAT12Infor m))
                        * ucast (bytes_per_sector (s_FAT12Infor m)) :: u32))"
    and r: "kmc_read_multi_sector m (cluster_offset m c)
                (ucast (sectors_per_cluster (s_FAT12Infor m)))
                (Some (replicate (unat (ucast (sectors_per_cluster (s_FAT12Infor m))
                        * ucast (bytes_per_sector (s_FAT12Infor m)) :: u32)) 0))
              = Inr (m1, n, buff1)"
    and short: "n \<noteq> ucast (sectors_per_cluster (s_FAT12Infor m))
                      * ucast (bytes_per_sector (s_FAT12Infor m))"
  shows "fatfs_read_dir A m c = None"
  using fatfs_read_dir_sub [OF sub refl, of A m] lt ok r short by simp

text \<open>
  C4 at a failing input: the image ends after the root directory, whose first entry is the
  subdirectory at cluster 2, so the read of cluster 2 is short. \<open>fatfs_read_dir\<close> does not
  advance to the next link; it reads the same cluster again without end and never returns.
\<close>

theorem fatfs_read_dir_retries_short_read:
  "fatfs_read_dir generous (mounted image_without_data) 2 = None"
  using fatfs_read_dir_short_read [of 2 generous "mounted image_without_data" _ 0
      "Some (replicate 512 0)"] without_data_reads
  by (simp add: mounted_without_data volume_offsets generous_def)

text \<open>
  C5, as amended. A pass of the loop of \<open>fatfs_read_file\<close> that is granted its buffer appends the
  buffer to the list exactly when the read returned the full cluster size, and then takes the
  FAT entry of the cluster as the next cluster; on a short read it appends nothing and reports
  nothing.
\<close>

theorem read_file_body_appends_full_reads:
  assumes body: "read_file_body A (m, c, acc) = Inr (m', c', acc')"
    and ok: "calloc_ok A (unat (ucast (sectors_per_cluster (s_FAT12Infor m))
                        * ucast (bytes_per_sector (s_FAT12Infor m)) :: u32))"
  shows "\<exists>n buff.
           kmc_read_multi_sector m (cluster_offset m c)
                (ucast (sectors_per_cluster (s_FAT12Infor m)))
                (Some (replicate (unat (ucast (sectors_per_cluster (s_FAT12Infor m))
                        * ucast (bytes_per_sector (s_FAT12Infor m)) :: u32)) 0))
              = Inr (m', n, Some buff)
         \<and> reported m' = reported m
         \<and> (if n = ucast (bytes_per_sector (s_FAT12Infor m))
                     * ucast (sectors_per_cluster (s_FAT12Infor m))
             then acc' = acc @ [buff] \<and> get_fat_entry_next m' c = Inr c'
             else acc' = acc)"
proof -
  let ?sz = "unat (ucast (sectors_per_cluster (s_FAT12Infor m))
                        * ucast (bytes_per_sector (s_FAT12Infor m)) :: u32)"
  from body ok obtain m1 n buff1 where
    r: "kmc_read_multi_sector m (cluster_offset m c)
          (ucast (sectors_per_cluster (s_FAT12Infor m))) (Some (replicate ?sz 0))
          = Inr (m1, n, buff1)"
    by (cases "kmc_read_multi_sector m (cluster_offset m c)
          (ucast (sectors_per_cluster (s_FAT12Infor m))) (Some (replicate ?sz 0))")
       (auto simp: read_file_body_def Let_def)
  obtain b1 where b1: "buff1 = Some b1" using kmc_read_multi_sector_length [OF r] by auto
  have rep: "reported m1 = reported m" using kmc_read_multi_sector_InrD [OF r] by auto
  show ?thesis
    using body ok r b1 rep
    by (auto simp: read_file_body_def Let_def split: if_splits sum.splits)
qed

theorem read_file_body_appends_full_reads_witness:
  "read_file_body generous (mounted floppy_volume, 3, [])
     = Inr ((mounted floppy_volume)\<lparr>io_log := io_log (mounted floppy_volume) @ [(17408, 512)]\<rparr>,
            4, [replicate 512 0x61])
   \<and> reported ((mounted floppy_volume)
                 \<lparr>io_log := io_log (mounted floppy_volume) @ [(17408, 512)]\<rparr>)
       = reported (mounted floppy_volume)
   \<and> get_fat_entry_next
         ((mounted floppy_volume)\<lparr>io_log := io_log (mounted floppy_volume) @ [(17408, 512)]\<rparr>) 3
       = Inr 4"
proof -
  define M where "M = mounted floppy_volume"
  define M1 where "M1 = M\<lparr>io_log := io_log M @ [(17408, 512)]\<rparr>"
  note facts = mounted_volume [folded M_def] volume_offsets [folded M_def]
  have fat: "get_fat_entry_next M1 3 = Inr 4"
    using volume_fat_entries [folded M_def] by (simp add: get_fat_entry_next_def M1_def)
  have r3: "kmc_read_multi_sector M (cluster_offset M 3) 1 (Some (replicate 512 0))
              = Inr (M1, 512, Some (replicate 512 0x61))"
    unfolding M1_def by (simp add: facts volume_reads)
  have body: "read_file_body generous (M, 3, []) = Inr (M1, 4, [replicate 512 0x61])"
    using r3 fat by (simp add: read_file_body_def Let_def facts generous_def)
  have ok: "calloc_ok generous (unat (ucast (sectors_per_cluster (s_FAT12Infor M))
                        * ucast (bytes_per_sector (s_FAT12Infor M)) :: u32))"
    by (simp add: generous_def)
  from read_file_body_appends_full_reads [OF body ok]
  have "reported M1 = reported M \<and> get_fat_entry_next M1 3 = Inr 4"
    by (auto split: if_splits)
  with body show ?thesis
    unfolding M_def [symmetric] M1_def [symmetric] by simp
qed

text \<open>
  C5 as stated fails on the image that ends after the root directory: the read of cluster 3 (the
  file of the root directory) returns no bytes, and the pass leaves the list empty and the
  cluster number at 3.
\<close>

theorem read_file_body_short_read:
  "kmc_read_multi_sector (mounted image_without_data)
       (cluster_offset (mounted image_without_data) 3) 1 (Some (replicate 512 0))
     = Inr ((mounted image_without_data)
              \<lparr>io_log := io_log (mounted image_without_data) @ [(17408, 512)]\<rparr>,
            0, Some (replicate 512 0))
   \<and> read_file_body generous (mounted image_without_data, 3, [])
     = Inr ((mounted image_without_data)
              \<lparr>io_log := io_log (mounted image_without_data) @ [(17408, 512)]\<rparr>,
            3, [])"
  using without_data_reads
  by (simp add: read_file_body_def Let_def mounted_without_data volume_offsets generous_def)


lemma length_back_ref_cluster [simp]: "length back_ref_cluster = 512"
  by (simp add: back_ref_cluster_def dir_slot_def)


text \<open>
  A pass of the subdirectory loop that reads its cluster in full (it leaves \<open>buff\<close> null)
  appends the entries decoded from its buffer, in slot order, without exactly those whose
  first-cluster field equals the cluster number of that pass, and then overwrites that number
  with the FAT entry. Every listing that \<open>fatfs_read_dir\<close> returns for a starting cluster \<open>c\<close>
  other than 0 is the list of the first pass alone: the entries decoded from the first cluster
  without exactly those whose first-cluster field equals \<open>c\<close>.
\<close>

lemma read_dir_filters_cluster_of_pass:
  "(read_dir_body A (m, cur, Some b, acc) = Inr (m1, nxt, None, acc1) \<longrightarrow>
      (\<exists>n b1. kmc_read_multi_sector m (cluster_offset m cur)
                  (ucast (sectors_per_cluster (s_FAT12Infor m))) (Some b) = Inr (m1, n, Some b1)
             \<and> acc1 = acc @ map (decode_entry b1)
                               (filter (\<lambda>k. First_Logical_Cluster (decode_entry b1 k) \<noteq> cur)
                                  (decoded_slots b1 (unat n) 0))
             \<and> get_fat_entry_next m1 cur = Inr nxt))
   \<and> (c \<noteq> 0 \<longrightarrow> fatfs_read_dir A m c = Some (Inr (lst, m')) \<longrightarrow>
        lst = (case scanned_cluster A m c of
                 None \<Rightarrow> []
               | Some (buff, n) \<Rightarrow>
                   map (decode_entry buff)
                     (filter (\<lambda>k. First_Logical_Cluster (decode_entry buff k) \<noteq> c)
                        (decoded_slots buff n 0))))"
proof (intro conjI impI)
  assume body: "read_dir_body A (m, cur, Some b, acc) = Inr (m1, nxt, None, acc1)"
  then obtain m0 n buff1 where
    r: "kmc_read_multi_sector m (cluster_offset m cur)
          (ucast (sectors_per_cluster (s_FAT12Infor m))) (Some b) = Inr (m0, n, buff1)"
    by (cases "kmc_read_multi_sector m (cluster_offset m cur)
          (ucast (sectors_per_cluster (s_FAT12Infor m))) (Some b)")
       (auto simp: read_dir_body_def Let_def)
  obtain b1 where b1: "buff1 = Some b1" using kmc_read_multi_sector_length [OF r] by auto
  from body r b1 have full: "n = ucast (sectors_per_cluster (s_FAT12Infor m))
                      * ucast (bytes_per_sector (s_FAT12Infor m))"
    by (auto simp: read_dir_body_def Let_def split: if_splits)
  from body r b1 full have sc: "scan_sub A b1 (unat n) cur 0 acc = Inr acc1" and m0: "m0 = m1"
    and fat: "get_fat_entry_next m0 cur = Inr nxt"
    by (auto simp: read_dir_body_def Let_def split: sum.splits)
  from scan_sub_decoded [OF sc] r b1 m0 fat
  show "\<exists>n b1. kmc_read_multi_sector m (cluster_offset m cur)
                  (ucast (sectors_per_cluster (s_FAT12Infor m))) (Some b) = Inr (m1, n, Some b1)
             \<and> acc1 = acc @ map (decode_entry b1)
                               (filter (\<lambda>k. First_Logical_Cluster (decode_entry b1 k) \<noteq> cur)
                                  (decoded_slots b1 (unat n) 0))
             \<and> get_fat_entry_next m1 cur = Inr nxt"
    by auto
next
  assume sub: "c \<noteq> 0" and ret: "fatfs_read_dir A m c = Some (Inr (lst, m'))"
  define sz where "sz = unat (ucast (sectors_per_cluster (s_FAT12Infor m))
                        * ucast (bytes_per_sector (s_FAT12Infor m)) :: u32)"
  note eq = fatfs_read_dir_sub [OF sub sz_def, of A]
  show "lst = (case scanned_cluster A m c of
                 None \<Rightarrow> []
               | Some (buff, n) \<Rightarrow>
                   map (decode_entry buff)
                     (filter (\<lambda>k. First_Logical_Cluster (decode_entry buff k) \<noteq> c)
                        (decoded_slots buff n 0)))"
  proof (cases "calloc_ok A sz")
    case False
    then show ?thesis
      using ret eq by (auto simp: scanned_cluster_def Let_def sz_def)
  next
    case ok: True
    show ?thesis
    proof (cases "kmc_read_multi_sector m (cluster_offset m c)
                (ucast (sectors_per_cluster (s_FAT12Infor m))) (Some (replicate sz 0))")
      case (Inl f)
      then show ?thesis using ret eq ok by simp
    next
      case (Inr t)
      obtain m1 n buff1 where t: "t = (m1, n, buff1)" by (cases t) auto
      show ?thesis
      proof (cases "n = ucast (sectors_per_cluster (s_FAT12Infor m))
                      * ucast (bytes_per_sector (s_FAT12Infor m))")
        case False
        then show ?thesis
          using ret eq ok Inr t
          by (auto simp: scanned_cluster_def Let_def sz_def [symmetric] split: if_splits)
      next
        case full: True
        from ret eq ok Inr t full obtain acc1 nxt where
          sc: "scan_sub A (the buff1) (unat n) c 0 [] = Inr acc1"
          and fat: "get_fat_entry_next m1 c = Inr nxt"
          and res: "if nxt < 0xFF7
                    then (\<exists>c2 buff2. read_dir_loop A (m1, nxt, None, acc1)
                                        = Some (Inr (m', c2, buff2, lst)))
                    else lst = acc1"
          by (auto split: sum.splits if_splits option.splits)
        have "lst = acc1"
        proof (cases "nxt < 0xFF7")
          case True
          with res obtain c2 buff2 where
            "read_dir_loop A (m1, nxt, None, acc1) = Some (Inr (m', c2, buff2, lst))" by auto
          from read_dir_loop_null [OF this] show ?thesis by simp
        next
          case False
          with res show ?thesis by simp
        qed
        with scan_sub_decoded [OF sc] show ?thesis
          using ok Inr t full by (simp add: scanned_cluster_def Let_def sz_def [symmetric])
      qed
    qed
  qed
qed

lemma mounted_thin:
  "s_fptr (mounted thin_image) = Some thin_image"
  "s_sectorSize (mounted thin_image) = 512"
  "s_FAT12Infor (mounted thin_image)
     = \<lparr>bytes_per_sector = 512, sectors_per_cluster = 0, Number_of_FATs = 2,
        Maximum_number_of_root_directory_entries = 224, Total_sector_count = 2880,
        Sectors_per_FAT = 9\<rparr>"
  "Cluster_starts_in_physical_of_the_data_area (mounted thin_image) = 33"
  "s_fat_table (mounted thin_image) = Some thin_image"
proof -
  have f: "s_FAT12Infor (parse_bootsector thin_image power_on)
     = \<lparr>bytes_per_sector = 512, sectors_per_cluster = 0, Number_of_FATs = 2,
        Maximum_number_of_root_directory_entries = 224, Total_sector_count = 2880,
        Sectors_per_FAT = 9\<rparr>"
    by (simp add: parse_bootsector_def thin_image_def pack12_def power_on_def le16_def nth_append)
  have len: "length thin_image = 4608" by (simp add: thin_image_def pack12_def)
  obtain m' where
    "fatfs_init generous (Some thin_image) power_on = Inr (0, m')"
    "s_FAT12Infor m' = \<lparr>bytes_per_sector = 512, sectors_per_cluster = 0, Number_of_FATs = 2,
              Maximum_number_of_root_directory_entries = 224, Total_sector_count = 2880,
              Sectors_per_FAT = 9\<rparr>"
    "Cluster_starts_in_physical_of_the_data_area m' = 33"
    "s_fptr m' = Some thin_image" "s_sectorSize m' = 512"
    "s_fat_table m' = Some thin_image"
    using fatfs_init_mounted [of thin_image generous
        "s_FAT12Infor (parse_bootsector thin_image power_on)" power_on]
    unfolding f
    by (simp add: generous_def len) (auto simp: power_on_def)
  then show "s_fptr (mounted thin_image) = Some thin_image"
    "s_sectorSize (mounted thin_image) = 512"
    "s_FAT12Infor (mounted thin_image)
       = \<lparr>bytes_per_sector = 512, sectors_per_cluster = 0, Number_of_FATs = 2,
          Maximum_number_of_root_directory_entries = 224, Total_sector_count = 2880,
          Sectors_per_FAT = 9\<rparr>"
    "Cluster_starts_in_physical_of_the_data_area (mounted thin_image) = 33"
    "s_fat_table (mounted thin_image) = Some thin_image"
    by (simp_all add: mounted_def)
qed

text \<open>
  When the second cluster of the chain lies beyond the image, the pass for it reads nothing
  into the null buffer, reports the short read and is repeated without end.
\<close>

lemma cut_chain_walk:
  "fatfs_read_dir generous (mounted cut_chain_volume) 2 = None"
proof -
  define M where "M = mounted cut_chain_volume"
  define M1 where "M1 = M\<lparr>io_log := io_log M @ [(16896, 512)]\<rparr>"
  note facts = mounted_floppy [of "long_dir_fat @ long_dir_fat @ volume_root @ volume_subdir",
      folded cut_chain_volume_def, simplified, folded M_def]
  have off: "cluster_offset M 2 = 16896" by (simp add: cluster_offset_def facts)
  have r: "kmc_read_multi_sector M (cluster_offset M 2) 1 (Some (replicate 512 0))
             = Inr (M1, 512, Some volume_subdir)"
    using read_fresh_buffer [of M cut_chain_volume 16896]
    unfolding off M1_def by (simp add: facts) (simp add: cut_chain_volume_def)
  have fat: "get_fat_entry_next M1 2 = Inr 3"
    by (simp add: get_fat_entry_next_def M1_def facts long_dir_fat_def pack12_def nth_append)
  have "dir_stuck (M1, 3, None, [decode_entry volume_subdir 32, decode_entry volume_subdir 64])"
    by (simp add: dir_stuck_def kmc_read_multi_sector_null M1_def facts cluster_offset_def
          cut_chain_volume_def)
  then have "read_dir_loop generous
               (M1, 3, None, [decode_entry volume_subdir 32, decode_entry volume_subdir 64])
             = None"
    by (rule read_dir_loop_stuck)
  then show ?thesis
    using fatfs_read_dir_sub [of 2 512 M generous] r fat
    by (simp add: facts generous_def M_def [symmetric] volume_subdir_scan [unfolded generous_def])
qed

text \<open>
  On the image with empty clusters the walk from cluster 2 makes two passes, each reading no
  bytes (the second into the null buffer), and returns the empty listing.
\<close>

lemma thin_walk:
  "fatfs_read_dir generous (mounted thin_image) 2
     = Some (Inr ([], (mounted thin_image)
                        \<lparr>io_log := io_log (mounted thin_image) @ [(16896, 0), (17408, 0)]\<rparr>))"
proof -
  define M where "M = mounted thin_image"
  define M1 where "M1 = M\<lparr>io_log := io_log M @ [(16896, 0)]\<rparr>"
  define M2 where "M2 = M\<lparr>io_log := io_log M @ [(16896, 0), (17408, 0)]\<rparr>"
  note facts = mounted_thin [folded M_def]
  have r2: "kmc_read_multi_sector M (cluster_offset M 2) 0 (Some []) = Inr (M1, 0, Some [])"
    by (simp add: kmc_read_multi_sector_def fseek_fread_def Let_def facts cluster_offset_def
          M1_def)
  have r3: "kmc_read_multi_sector M1 (cluster_offset M1 3) 0 None = Inr (M2, 0, None)"
    by (simp add: kmc_read_multi_sector_null facts cluster_offset_def M1_def M2_def)
  have fat: "get_fat_entry_next M1 2 = Inr 3" "get_fat_entry_next M2 3 = Inr 0xFFF"
    by (simp_all add: get_fat_entry_next_def M1_def M2_def facts thin_image_def pack12_def
          nth_append)
  have b3: "read_dir_body generous (M1, 3, None, []) = Inr (M2, 0xFFF, None, [])"
    using r3 fat by (simp add: read_dir_body_def Let_def M1_def facts scan_sub_nothing)
  have "read_dir_loop generous (M1, 3, None, []) = Some (Inr (M2, 0xFFF, None, []))"
    using read_dir_loop_unfold [OF b3] by simp
  then show ?thesis
    using fatfs_read_dir_sub [of 2 0 M generous] r2 fat
    unfolding M_def [symmetric] M2_def [symmetric]
    by (simp add: facts generous_def scan_sub_nothing)
qed

text \<open>
  The sample subdirectory (one cluster) is listed without its own entry; the walk of two passes
  on the image with empty clusters lists nothing.
\<close>

lemma read_dir_filter_samples:
  "read_dir_body generous (mounted floppy_volume, 2, Some (replicate 512 0), [])
     = Inr ((mounted floppy_volume)\<lparr>io_log := io_log (mounted floppy_volume) @ [(16896, 512)]\<rparr>,
            0xFFF, None, [decode_entry volume_subdir 32, decode_entry volume_subdir 64])
   \<and> fatfs_read_dir generous (mounted floppy_volume) 2
     = Some (Inr ([decode_entry volume_subdir 32, decode_entry volume_subdir 64],
                  (mounted floppy_volume)
                    \<lparr>io_log := io_log (mounted floppy_volume) @ [(16896, 512)]\<rparr>))
   \<and> decoded_slots volume_subdir 512 0 = [0, 32, 64]
   \<and> First_Logical_Cluster (decode_entry volume_subdir 0) = 2
   \<and> [decode_entry volume_subdir 32, decode_entry volume_subdir 64]
       = map (decode_entry volume_subdir)
           (filter (\<lambda>k. First_Logical_Cluster (decode_entry volume_subdir k) \<noteq> 2)
              (decoded_slots volume_subdir 512 0))
   \<and> fatfs_read_dir generous (mounted thin_image) 2
     = Some (Inr ([], (mounted thin_image)
                        \<lparr>io_log := io_log (mounted thin_image) @ [(16896, 0), (17408, 0)]\<rparr>))
   \<and> scanned_cluster generous (mounted thin_image) 2 = Some ([], 0)
   \<and> [] = map (decode_entry [])
              (filter (\<lambda>k. First_Logical_Cluster (decode_entry [] k) \<noteq> 2)
                 (decoded_slots [] 0 0))"
proof -
  define M where "M = mounted floppy_volume"
  define D1 where "D1 = M\<lparr>io_log := io_log M @ [(16896, 512)]\<rparr>"
  define T where "T = mounted thin_image"
  define T2 where "T2 = T\<lparr>io_log := io_log T @ [(16896, 0), (17408, 0)]\<rparr>"
  note facts = mounted_volume [folded M_def] volume_offsets [folded M_def]
  note thin = mounted_thin [folded T_def]
  have fat: "get_fat_entry_next D1 2 = Inr 0xFFF"
    using volume_fat_entries [folded M_def] by (simp add: get_fat_entry_next_def D1_def)
  have r2: "kmc_read_multi_sector M (cluster_offset M 2) 1 (Some (replicate 512 0))
              = Inr (D1, 512, Some volume_subdir)"
    unfolding D1_def by (simp add: facts volume_reads)
  have body: "read_dir_body generous (M, 2, Some (replicate 512 0), [])
                = Inr (D1, 0xFFF, None, [decode_entry volume_subdir 32, decode_entry volume_subdir 64])"
    using r2 fat by (simp add: read_dir_body_def Let_def facts volume_subdir_scan)
  have ev: "fatfs_read_dir generous M 2
              = Some (Inr ([decode_entry volume_subdir 32, decode_entry volume_subdir 64], D1))"
    using fatfs_read_dir_sub [of 2 512 M generous] r2 fat
    by (simp add: facts generous_def volume_subdir_scan [unfolded generous_def])
  have sc: "scanned_cluster generous M 2 = Some (volume_subdir, 512)"
    using r2 by (simp add: scanned_cluster_def Let_def facts generous_def)
  have flc: "First_Logical_Cluster (decode_entry volume_subdir 0) = 2"
    by (simp add: decode_entry_def volume_subdir_def dir_slot_def le16_def nth_append)
  have tw: "fatfs_read_dir generous T 2 = Some (Inr ([], T2))"
    using thin_walk unfolding T_def [symmetric] T2_def [symmetric] .
  have tsc: "scanned_cluster generous T 2 = Some ([], 0)"
    by (simp add: scanned_cluster_def Let_def thin generous_def kmc_read_multi_sector_def
          fseek_fread_def)
  from read_dir_filters_cluster_of_pass [where A = generous and m = M and cur = 2
      and b = "replicate 512 0" and acc = "[]" and ?m1.0 = D1 and nxt = "0xFFF"
      and ?acc1.0 = "[decode_entry volume_subdir 32, decode_entry volume_subdir 64]"
      and c = 2 and lst = "[decode_entry volume_subdir 32, decode_entry volume_subdir 64]"
      and m' = D1]
    body r2 sc ev flc volume_subdir_slots
  have first: "[decode_entry volume_subdir 32, decode_entry volume_subdir 64]
       = map (decode_entry volume_subdir)
           (filter (\<lambda>k. First_Logical_Cluster (decode_entry volume_subdir k) \<noteq> 2)
              (decoded_slots volume_subdir 512 0))"
    by simp
  from read_dir_filters_cluster_of_pass [where A = generous and m = T and c = 2
      and lst = "[]" and m' = T2] tw tsc
  have second: "[] = map (decode_entry [])
              (filter (\<lambda>k. First_Logical_Cluster (decode_entry [] k) \<noteq> 2)
                 (decoded_slots [] 0 0))"
    by simp
  show ?thesis
    using body ev volume_subdir_slots flc first tw tsc second
    unfolding M_def [symmetric] D1_def [symmetric] T_def [symmetric] T2_def [symmetric]
    by simp
qed


text \<open>
  On a mounted volume with the buffer granted, \<open>fatfs_read_file\<close> reads the cluster it is
  started with, whatever its number (0 and the numbers from \<open>0xFF7\<close> included): the first pass
  issues the read before the loop condition is looked at. Every list the function returns comes
  after that read, and starts with the buffer of that read when the read was full.
\<close>

lemma first_pass_reads:
  assumes ok: "calloc_ok A (unat (ucast (sectors_per_cluster (s_FAT12Infor m))
                        * ucast (bytes_per_sector (s_FAT12Infor m)) :: u32))"
    and opened: "s_fptr m = Some img"
    and sect: "s_sectorSize m = bytes_per_sector (s_FAT12Infor m)"
  shows "\<exists>m1 n buff.
           kmc_read_multi_sector m (cluster_offset m c)
                (ucast (sectors_per_cluster (s_FAT12Infor m)))
                (Some (replicate (unat (ucast (sectors_per_cluster (s_FAT12Infor m))
                        * ucast (bytes_per_sector (s_FAT12Infor m)) :: u32)) 0))
              = Inr (m1, n, Some buff)
         \<and> io_log m1 = io_log m @ [(unat (cluster_offset m c),
                                      unat (ucast (sectors_per_cluster (s_FAT12Infor m))
                                              * ucast (bytes_per_sector (s_FAT12Infor m)) :: u32))]
         \<and> (\<forall>lst m'. fatfs_read_file A m c = Some (Inr (lst, m')) \<longrightarrow>
                (\<exists>more. io_log m' = io_log m1 @ more)
              \<and> (n = ucast (bytes_per_sector (s_FAT12Infor m))
                        * ucast (sectors_per_cluster (s_FAT12Infor m))
                   \<longrightarrow> (\<exists>more. lst = buff # more)))
         \<and> (n = ucast (bytes_per_sector (s_FAT12Infor m))
                   * ucast (sectors_per_cluster (s_FAT12Infor m))
              \<and> ClusterList_ok A
              \<longrightarrow> (\<forall>v. get_fat_entry_next m1 c = Inr v \<longrightarrow>
                      read_file_body A (m, c, []) = Inr (m1, v, [buff])))"
proof -
  let ?sz = "unat (ucast (sectors_per_cluster (s_FAT12Infor m))
                        * ucast (bytes_per_sector (s_FAT12Infor m)) :: u32)"
  let ?full = "ucast (bytes_per_sector (s_FAT12Infor m))
                   * ucast (sectors_per_cluster (s_FAT12Infor m)) :: u32"
  define got where "got = take ?sz (drop (unat (cluster_offset m c)) img)"
  define m1 where "m1 = m\<lparr>io_log := io_log m @ [(unat (cluster_offset m c), ?sz)]\<rparr>"
  define buff where "buff = got @ drop (length got) (replicate ?sz (0::u8))"
  have w: "unat (ucast (s_sectorSize m) * ucast (sectors_per_cluster (s_FAT12Infor m)) :: u32) = ?sz"
    by (simp add: sect mult.commute)
  have r: "kmc_read_multi_sector m (cluster_offset m c)
             (ucast (sectors_per_cluster (s_FAT12Infor m))) (Some (replicate ?sz 0))
           = Inr (m1, of_nat (length got), Some buff)"
    unfolding kmc_read_multi_sector_def w
    by (simp add: fseek_fread_def opened Let_def got_def m1_def buff_def)
  have tail: "\<forall>lst m'. fatfs_read_file A m c = Some (Inr (lst, m')) \<longrightarrow>
                (\<exists>more. io_log m' = io_log m1 @ more)
              \<and> (of_nat (length got) = ?full \<longrightarrow> (\<exists>more. lst = buff # more))"
  proof (intro allI impI)
    fix lst m' assume ret: "fatfs_read_file A m c = Some (Inr (lst, m'))"
    then obtain c' where loop: "read_file_loop A (m, c, []) = Some (Inr (m', c', lst))"
      by (auto simp: fatfs_read_file_def split: option.splits sum.splits)
    then obtain s1 where b: "read_file_body A (m, c, []) = Inr s1"
      by (cases "read_file_body A (m, c, [])") (auto simp: read_file_loop_fault)
    obtain m1' c1 acc1 where s1: "s1 = (m1', c1, acc1)" by (cases s1) auto
    have m1': "m1' = m1" and acc1: "of_nat (length got) = ?full \<longrightarrow> acc1 = [buff]"
      using b ok r by (auto simp: read_file_body_def Let_def s1 split: if_splits sum.splits)
    have "(\<exists>more. io_log m' = io_log m1 @ more) \<and> (\<exists>more. lst = acc1 @ more)"
    proof (cases "c1 < 0xFF7")
      case True
      then have "read_file_loop A s1 = Some (Inr (m', c', lst))"
        using read_file_loop_unfold [OF b] loop by (simp add: s1)
      from read_file_loop_grows [OF this] show ?thesis by (simp add: s1 m1')
    next
      case False
      then show ?thesis using read_file_loop_unfold [OF b] loop by (simp add: s1 m1')
    qed
    with acc1 show "(\<exists>more. io_log m' = io_log m1 @ more)
              \<and> (of_nat (length got) = ?full \<longrightarrow> (\<exists>more. lst = buff # more))"
      by auto
  qed
  have first: "of_nat (length got) = ?full \<and> ClusterList_ok A
              \<longrightarrow> (\<forall>v. get_fat_entry_next m1 c = Inr v \<longrightarrow>
                      read_file_body A (m, c, []) = Inr (m1, v, [buff]))"
    using ok r by (simp add: read_file_body_def Let_def)
  show ?thesis
    using r tail first by (intro exI [of _ m1] exI [of _ "of_nat (length got)"] exI [of _ buff])
      (simp add: m1_def)
qed

text \<open>
  On the sample volume a start in the termination range reads its cluster (beyond the image, so
  the read is short) and returns the empty list; the start 4, a chain of one cluster, returns the
  one buffer.
\<close>

lemma first_pass_samples:
  "fatfs_read_file generous (mounted floppy_volume) 0xFF8
       = Some (Inr ([], (mounted floppy_volume)
                          \<lparr>io_log := io_log (mounted floppy_volume) @ [(2108928, 512)]\<rparr>))
   \<and> fatfs_read_file generous (mounted floppy_volume) 4
       = Some (Inr ([replicate 512 0x62],
                    (mounted floppy_volume)
                      \<lparr>io_log := io_log (mounted floppy_volume) @ [(17920, 512)]\<rparr>))"
proof -
  define M where "M = mounted floppy_volume"
  define M1 where "M1 = M\<lparr>io_log := io_log M @ [(2108928, 512)]\<rparr>"
  define M4 where "M4 = M\<lparr>io_log := io_log M @ [(17920, 512)]\<rparr>"
  note facts = mounted_volume [folded M_def] volume_offsets [folded M_def]
  have r: "kmc_read_multi_sector M (cluster_offset M 0xFF8) 1 (Some (replicate 512 0))
              = Inr (M1, 0, Some (replicate 512 0))"
    unfolding M1_def by (simp add: facts volume_reads)
  have b: "read_file_body generous (M, 0xFF8, []) = Inr (M1, 0xFF8, [])"
    using r by (simp add: read_file_body_def Let_def facts generous_def)
  have e1: "fatfs_read_file generous M 0xFF8 = Some (Inr ([], M1))"
    using read_file_loop_unfold [OF b] by (simp add: fatfs_read_file_def)
  have fat: "get_fat_entry_next M4 4 = Inr 0xFFF"
    using volume_fat_entries [folded M_def] by (simp add: get_fat_entry_next_def M4_def)
  have r4: "kmc_read_multi_sector M (cluster_offset M 4) 1 (Some (replicate 512 0))
              = Inr (M4, 512, Some (replicate 512 0x62))"
    unfolding M4_def by (simp add: facts volume_reads)
  have b4: "read_file_body generous (M, 4, []) = Inr (M4, 0xFFF, [replicate 512 0x62])"
    using r4 fat by (simp add: read_file_body_def Let_def facts generous_def)
  have e4: "fatfs_read_file generous M 4 = Some (Inr ([replicate 512 0x62], M4))"
    using read_file_loop_unfold [OF b4] by (simp add: fatfs_read_file_def)
  show ?thesis
    using e1 e4 unfolding M_def [symmetric] M1_def [symmetric] M4_def [symmetric]
    by simp
qed

text \<open>
  C10 at a failing input: the start value 0, the first cluster of an empty file, on the sample
  volume. The first pass reads the 512 bytes at the offset computed for cluster 0 (they lie in
  the root directory) in full and appends the buffer. The FAT entry 0 is \<open>0xFF0\<close>, below
  \<open>0xFF7\<close>, so the loop goes on to cluster \<open>0xFF0\<close>, which lies beyond the image: its read is
  short, the cluster number stays, and the same read is repeated without end. No list is
  returned.
\<close>

theorem fatfs_read_file_empty_file:
  "read_file_body generous (mounted floppy_volume, 0, [])
     = Inr ((mounted floppy_volume)\<lparr>io_log := io_log (mounted floppy_volume) @ [(15872, 512)]\<rparr>,
            0xFF0, [replicate 512 0])
   \<and> read_file_body generous
         ((mounted floppy_volume)\<lparr>io_log := io_log (mounted floppy_volume) @ [(15872, 512)]\<rparr>,
          0xFF0, [replicate 512 0])
     = Inr ((mounted floppy_volume)
              \<lparr>io_log := io_log (mounted floppy_volume) @ [(15872, 512), (2104832, 512)]\<rparr>,
            0xFF0, [replicate 512 0])
   \<and> fatfs_read_file generous (mounted floppy_volume) 0 = None"
proof -
  define M where "M = mounted floppy_volume"
  define M1 where "M1 = M\<lparr>io_log := io_log M @ [(15872, 512)]\<rparr>"
  note facts = mounted_volume [folded M_def]
  have same: "s_fptr M1 = Some floppy_volume" "s_sectorSize M1 = 512"
      "s_FAT12Infor M1 = s_FAT12Infor M"
    by (simp_all add: M1_def facts)
  have off: "cluster_offset M 0 = 15872" "cluster_offset M1 0xFF0 = 2104832"
    by (simp_all add: cluster_offset_def M1_def facts)
  have r0: "kmc_read_multi_sector M (cluster_offset M 0) 1 (Some (replicate 512 0))
              = Inr (M1, 512, Some (replicate 512 0))"
    using read_fresh_buffer [of M floppy_volume 15872]
    unfolding off M1_def
    by (simp add: facts) (simp add: floppy_volume_def volume_root_def dir_slot_def)
  have fat: "get_fat_entry_next M1 0 = Inr 0xFF0"
    by (simp add: get_fat_entry_next_def M1_def facts volume_fat_def pack12_def nth_append)
  have b0: "read_file_body generous (M, 0, []) = Inr (M1, 0xFF0, [replicate 512 0])"
    using r0 fat by (simp add: read_file_body_def Let_def facts generous_def)
  have r1: "kmc_read_multi_sector M1 (cluster_offset M1 0xFF0) 1 (Some (replicate 512 0))
              = Inr (M1\<lparr>io_log := io_log M1 @ [(2104832, 512)]\<rparr>, 0, Some (replicate 512 0))"
    using read_fresh_buffer [of M1 floppy_volume 2104832]
    unfolding off by (simp add: same) (simp add: floppy_volume_def)
  have b1: "read_file_body generous (M1, 0xFF0, [replicate 512 0])
              = Inr (M\<lparr>io_log := io_log M @ [(15872, 512), (2104832, 512)]\<rparr>,
                     0xFF0, [replicate 512 0])"
    using r1 by (simp add: read_file_body_def Let_def same facts generous_def) (simp add: M1_def)
  have "file_stuck generous (M1, 0xFF0, [replicate 512 0])"
    using r1 by (simp add: file_stuck_def Let_def same facts generous_def)
  then have "read_file_loop generous (M1, 0xFF0, [replicate 512 0]) = None"
    by (rule read_file_loop_stuck)
  with read_file_loop_unfold [OF b0] have "read_file_loop generous (M, 0, []) = None" by simp
  then show ?thesis
    using b0 b1 unfolding M_def [symmetric] M1_def [symmetric]
    by (simp add: fatfs_read_file_def)
qed

end
